theory Spec2Isabelle
  imports Main "HOL-Library.Word" "HOL-Library.DAList"
begin

section \<open>usb-moded: mode descriptors, sysfs value tracking and mode setting\<close>

text \<open>
  A shallow embedding of \<^verbatim>\<open>src/usb_moded-modesetting.c\<close> and
  \<^verbatim>\<open>src/usb_moded-dyn-config.c\<close>. A nullable \<^verbatim>\<open>char *\<close> is a
  \<open>string option\<close> (\<open>None\<close> is the null pointer), an \<^verbatim>\<open>int\<close> status is an
  \<open>int\<close>, and the two static variables of the mode setting code, the files it opens and
  everything it sends to its collaborators are fields of one explicit state.
\<close>

subsection \<open>The operating system as seen by the code\<close>

datatype errno = ENOENT | EACCES | EINVAL | EIO | EISDIR | ENOMEM

text \<open>
  What the system calls answer for one path. \<open>open_rd\<close> and \<open>open_wr\<close> are the results of
  \<^verbatim>\<open>open(path, O_RDONLY)\<close> and \<^verbatim>\<open>open(path, O_WRONLY)\<close> (\<open>None\<close>: a descriptor
  is returned); \<open>read_res\<close> is the result of \<^verbatim>\<open>read\<close> on a fresh descriptor (the bytes
  that are available, of which a call takes at most its size argument); \<open>write_res\<close> is the
  result of one \<^verbatim>\<open>write\<close> call: an error, or \<open>Inr k\<close> when the call accepts up to
  \<open>Suc k\<close> bytes (a successful call with a positive count makes progress).
  Results are those seen after \<^verbatim>\<open>TEMP_FAILURE_RETRY\<close>.
\<close>

record fnode =
  open_rd :: "errno option"
  read_res :: "errno + string"
  open_wr :: "errno option"
  write_res :: "errno + nat"

datatype loglevel = LOG_CRIT | LOG_ERR | LOG_WARNING | LOG_DEBUG

datatype state_signal = USB_PRE_UNMOUNT | DATA_IN_USE

datatype error_signal = UMOUNT_ERROR | RE_MOUNT_FAILED | MODE_SETTING_FAILED | Blocker "string option"

subsection \<open>Mode descriptors\<close>

text \<open>
  \<^verbatim>\<open>struct mode_list_elem\<close> (\<^verbatim>\<open>modedata_t\<close>), with the fields the two source files
  read and write. The integer flags keep their C type.
\<close>

record modedata =
  mode_name :: "string option"
  mode_module :: "string option"
  appsync :: int
  mass_storage :: int
  network :: int
  network_interface :: "string option"
  sysfs_path :: "string option"
  sysfs_value :: "string option"
  sysfs_reset_value :: "string option"
  android_extra_sysfs_path :: "string option"
  android_extra_sysfs_value :: "string option"
  android_extra_sysfs_path2 :: "string option"
  android_extra_sysfs_value2 :: "string option"
  android_extra_sysfs_path3 :: "string option"
  android_extra_sysfs_value3 :: "string option"
  android_extra_sysfs_path4 :: "string option"
  android_extra_sysfs_value4 :: "string option"
  idProduct :: "string option"
  idVendorOverride :: "string option"
  nat_flag :: int
  dhcp_server :: int
  connman_tethering :: "string option"
  softconnect :: "string option"
  softconnect_disconnect :: "string option"
  softconnect_path :: "string option"

subsection \<open>Events and the state of the mode setting code\<close>

text \<open>
  Calls into the collaborators whose code is in other files of the daemon; each is recorded
  with its arguments, and its result (where the caller reads one) comes from the environment.
\<close>

datatype extcall =
    Configfs_set_udc bool
  | Configfs_set_productid "string option"
  | Configfs_set_vendorid "string option"
  | Configfs_set_function "string option"
  | Android_set_productid "string option"
  | Android_set_vendorid "string option"
  | Appsync_activate_sync "string option"
  | Appsync_activate_sync_post "string option"
  | Appsync_stop bool
  | Network_down modedata
  | Network_up modedata
  | Network_set_up_dhcpd modedata
  | Connman_set_tethering "string option" bool
  | Modules_unload_module string
  | Access string
  | Popen string

datatype event =
    Log loglevel string
  | StateSignal state_signal
  | ErrorSignal error_signal
  | Sleep nat
  | MSleep nat
  | System string
  | WriteCall string string
  | Ext extcall
  | GCritical string

text \<open>
  \<open>tracked_values\<close> is the static \<^verbatim>\<open>GHashTable *\<close> (\<open>None\<close> before
  \<^verbatim>\<open>modesetting_init\<close> and after \<^verbatim>\<open>modesetting_quit\<close>): a table with unique
  keys, visited entry by entry in some fixed order. \<open>delayed_network\<close> is the static timer
  id. \<open>sources\<close> holds the timeout sources of the GLib main loop that are still pending,
  each with the descriptor its callback will get, and \<open>last_source\<close> the last id the main
  loop handed out. \<open>trace\<close> collects, in order, what the code logged, signalled and called.
\<close>

record world =
  tracked_values :: "(string, string) alist option"
  delayed_network :: nat
  sources :: "(nat \<times> modedata) list"
  last_source :: nat
  files :: "string \<Rightarrow> fnode"
  trace :: "event list"

text \<open>
  The environment: compile-time switches and string macros of headers that are not part of
  the two files, the configuration getters, and the results of external calls. A result may
  depend on everything that happened before (the trace).
\<close>

record macros =
  APP_SYNC :: bool
  DEBIAN :: bool
  CONNMAN :: bool
  MODULE_NONE :: string
  MODULE_MASS_STORAGE :: string
  MODULE_FILE_STORAGE :: string
  MODE_MASS_STORAGE :: string
  MODE_CHARGING :: string
  MODE_CHARGING_FALLBACK :: string
  ANDROID0_ENABLE :: string
  ANDROID0_FUNCTIONS :: string

record env =
  macros :: macros
  configfs_in_use :: bool
  android_in_use :: bool
  modules_in_use :: bool
  config_find_sync :: int
  config_find_mounts :: "string option"
  config_find_alt_mount :: "string option"
  config_get_android_vendor_id :: "string option"
  realpath :: "string \<Rightarrow> string option"
  system_rc :: "event list \<Rightarrow> string \<Rightarrow> int"
  access_rc :: "event list \<Rightarrow> string \<Rightarrow> int"
  popen_lines :: "event list \<Rightarrow> string \<Rightarrow> string list option"
  configfs_set_udc_rc :: "event list \<Rightarrow> bool \<Rightarrow> bool"
  appsync_activate_sync_rc :: "event list \<Rightarrow> string option \<Rightarrow> int"
  network_up_rc :: "event list \<Rightarrow> modedata \<Rightarrow> int"
  store :: "string \<Rightarrow> string \<Rightarrow> fnode \<Rightarrow> fnode"

definition emit :: "event \<Rightarrow> world \<Rightarrow> world" where
  "emit ev w = w\<lparr>trace := trace w @ [ev]\<rparr>"

definition log_msg :: "loglevel \<Rightarrow> string \<Rightarrow> world \<Rightarrow> world" where
  "log_msg lvl msg w = emit (Log lvl msg) w"

definition is_log :: "event \<Rightarrow> bool" where
  "is_log ev = (case ev of Log lvl msg \<Rightarrow> True | _ \<Rightarrow> False)"

definition is_warning :: "event \<Rightarrow> bool" where
  "is_warning ev = (case ev of Log lvl msg \<Rightarrow> lvl = LOG_WARNING | _ \<Rightarrow> False)"

subsection \<open>Sysfs value tracker\<close>

text \<open>\<^verbatim>\<open>modesetting_init\<close> and \<^verbatim>\<open>modesetting_quit\<close>.\<close>

definition modesetting_init :: "world \<Rightarrow> world" where
  "modesetting_init w =
     (case tracked_values w of
        None \<Rightarrow> w\<lparr>tracked_values := Some DAList.empty\<rparr>
      | Some tv \<Rightarrow> w)"

definition modesetting_quit :: "world \<Rightarrow> world" where
  "modesetting_quit w =
     (case tracked_values w of
        None \<Rightarrow> w
      | Some tv \<Rightarrow> w\<lparr>tracked_values := None\<rparr>)"

text \<open>
  \<^verbatim>\<open>modesetting_track_value(path, text)\<close>: nothing without a table or without a path;
  \<^verbatim>\<open>g_hash_table_replace\<close> for a text, \<^verbatim>\<open>g_hash_table_remove\<close> for a null text.
\<close>

definition modesetting_track_value :: "string option \<Rightarrow> string option \<Rightarrow> world \<Rightarrow> world" where
  "modesetting_track_value path text w =
     (case tracked_values w of
        None \<Rightarrow> w
      | Some tv \<Rightarrow>
          (case path of
             None \<Rightarrow> w
           | Some p \<Rightarrow>
               (case text of
                  Some t \<Rightarrow> w\<lparr>tracked_values := Some (DAList.update p t tv)\<rparr>
                | None \<Rightarrow> w\<lparr>tracked_values := Some (DAList.delete p tv)\<rparr>)))"

definition tracked :: "world \<Rightarrow> string \<Rightarrow> string option" where
  "tracked w p = (case tracked_values w of None \<Rightarrow> None | Some tv \<Rightarrow> DAList.lookup tv p)"

subsection \<open>Normalising what was read\<close>

text \<open>
  \<^verbatim>\<open>modesetting_strip\<close> works in place on a NUL-terminated buffer. The buffer is the list
  of its bytes; reading at the end of the list reads the terminator, and so does reading a
  zero byte inside it. The write pointer never passes the read pointer, so the result is
  the list of the bytes written.
\<close>

definition byte :: "char \<Rightarrow> nat" where
  "byte c = of_char c"

definition peek :: "string \<Rightarrow> nat" where
  "peek src = (case src of [] \<Rightarrow> 0 | c # cs \<Rightarrow> byte c)"

text \<open>\<^verbatim>\<open>while( *src > 0 && *src <= 32 ) ++src;\<close>\<close>

fun skip_blank :: "string \<Rightarrow> string" where
  "skip_blank [] = []"
| "skip_blank (c # cs) = (if 0 < byte c \<and> byte c \<le> 32 then skip_blank cs else c # cs)"

text \<open>\<^verbatim>\<open>while( *src > 32 ) *dst++ = *src++;\<close>: the bytes copied and the rest.\<close>

fun copy_word :: "string \<Rightarrow> string \<times> string" where
  "copy_word [] = ([], [])"
| "copy_word (c # cs) =
     (if 32 < byte c then (case copy_word cs of (wd, rest) \<Rightarrow> (c # wd, rest))
      else ([], c # cs))"

lemma length_skip_blank: "length (skip_blank s) \<le> length s"
  by (induction s) auto

lemma length_copy_word: "length (snd (copy_word s)) \<le> length s"
  by (induction s) (auto split: prod.splits)

lemma strip_loop_progress:
  assumes "peek (skip_blank (snd (copy_word s))) \<noteq> 0"
  shows "length (skip_blank (snd (copy_word s))) < length s"
proof (cases s)
  case Nil
  with assms show ?thesis by (simp add: peek_def)
next
  case (Cons c cs)
  show ?thesis
  proof (cases "32 < byte c")
    case True
    have "length (skip_blank (snd (copy_word cs))) \<le> length cs"
      using length_skip_blank [of "snd (copy_word cs)"] length_copy_word [of cs] by linarith
    with True Cons show ?thesis by (simp add: split_beta)
  next
    case False
    note nb = False
    show ?thesis
    proof (cases "0 < byte c")
      case True
      with nb Cons length_skip_blank [of cs] show ?thesis by simp
    next
      case False
      with nb Cons assms show ?thesis by (simp add: peek_def)
    qed
  qed
qed

text \<open>
  The \<^verbatim>\<open>for( ;; )\<close> loop: copy a word, skip the blanks after it, stop at the
  terminator, otherwise write one space and go on.
\<close>

function strip_loop :: "string \<Rightarrow> string" where
  "strip_loop src =
     (case copy_word src of (wd, src1) \<Rightarrow>
        (let src2 = skip_blank src1 in
           if peek src2 = 0 then wd else wd @ CHR '' '' # strip_loop src2))"
  by pat_completeness auto
termination
  apply (relation "measure length")
   apply simp
  apply clarsimp
  subgoal for src wd src1
    using strip_loop_progress [of src] by (cases "copy_word src") auto
  done

declare strip_loop.simps [simp del]

definition modesetting_strip :: "string \<Rightarrow> string" where
  "modesetting_strip str = strip_loop (skip_blank str)"

subsection \<open>Reading and writing attribute files\<close>

text \<open>
  \<^verbatim>\<open>modesetting_read_from_file(path, maxsize)\<close>. A failed \<^verbatim>\<open>open\<close> is logged
  unless the error is \<^verbatim>\<open>ENOENT\<close> or \<^verbatim>\<open>EACCES\<close>; a failed \<^verbatim>\<open>read\<close> is
  logged; otherwise the \<^verbatim>\<open>done\<close> bytes read (at most \<open>maxsize\<close>) are terminated
  and stripped. Memory allocation is taken to succeed.
\<close>

definition modesetting_read_from_file :: "string \<Rightarrow> nat \<Rightarrow> world \<Rightarrow> string option \<times> world" where
  "modesetting_read_from_file path maxsize w =
     (case open_rd (files w path) of
        Some e \<Rightarrow>
          (None, if e \<noteq> ENOENT \<and> e \<noteq> EACCES then log_msg LOG_WARNING (path @ '': open'') w else w)
      | None \<Rightarrow>
          (case read_res (files w path) of
             Inl e \<Rightarrow> (None, log_msg LOG_WARNING (path @ '': read'') w)
           | Inr bytes \<Rightarrow> (Some (modesetting_strip (take maxsize bytes)), w)))"

text \<open>
  The \<^verbatim>\<open>while( todo > 0 )\<close> loop of \<^verbatim>\<open>modesetting_write_to_file_real\<close>: each
  \<^verbatim>\<open>write\<close> call either fails (logged at debug level when clearing and the error is
  \<^verbatim>\<open>EINVAL\<close>, at warning level otherwise) or takes a non-empty prefix of what is left.
  What an accepted chunk does to the file is the environment's \<open>store\<close>.
\<close>

function write_loop :: "env \<Rightarrow> string \<Rightarrow> bool \<Rightarrow> string \<Rightarrow> world \<Rightarrow> int \<times> world" where
  "write_loop E path clear text w =
     (if 0 < length text then
        (case write_res (files w path) of
           Inl e \<Rightarrow>
             (- 1, log_msg (if clear \<and> e = EINVAL then LOG_DEBUG else LOG_WARNING)
                     (''write('' @ path @ '')'') w)
         | Inr k \<Rightarrow>
             (let n = min (Suc k) (length text);
                  w1 = emit (WriteCall path (take n text))
                         (w\<lparr>files := (files w)(path := store E path (take n text) (files w path))\<rparr>)
              in write_loop E path clear (drop n text) w1))
      else (0, w))"
  by pat_completeness auto
termination
  by (relation "measure (\<lambda>(E, path, clear, text, w). length text)") auto

declare write_loop.simps [simp del]

text \<open>
  \<^verbatim>\<open>modesetting_write_to_file_real(file, line, func, path, text)\<close>, which the
  \<^verbatim>\<open>write_to_file(path, text)\<close> macro calls with the place of the call; the place only
  shows in the debug message and is left out.
\<close>

definition write_to_file :: "env \<Rightarrow> string option \<Rightarrow> string option \<Rightarrow> world \<Rightarrow> int \<times> world" where
  "write_to_file E path text w =
     (case text of
        None \<Rightarrow> (- 1, w)
      | Some text0 \<Rightarrow>
     (case path of
        None \<Rightarrow> (- 1, w)
      | Some p \<Rightarrow>
          (let clear = (p = ANDROID0_FUNCTIONS (macros E) \<and> (text0 = [] \<or> text0 = ''none''));
               txt = (if clear then ''none'' else text0);
               (prev, w1) = modesetting_read_from_file p 0x1000 w;
               w2 = (case prev of
                       Some pv \<Rightarrow> modesetting_track_value (Some p) (Some (if clear then [] else txt)) w1
                     | None \<Rightarrow> w1);
               w3 = log_msg LOG_DEBUG
                      (''WRITE '' @ p @ '' : '' @ (case prev of Some pv \<Rightarrow> pv | None \<Rightarrow> ''???'')
                         @ '' --> '' @ txt) w2
           in (case open_wr (files w3 p) of
                 Some e \<Rightarrow> (- 1, log_msg LOG_WARNING (''open('' @ p @ '')'') w3)
               | None \<Rightarrow> write_loop E p clear txt w3))))"

subsection \<open>Verifying the tracked values\<close>

text \<open>
  \<^verbatim>\<open>g_ascii_strcasecmp(a, b) == 0\<close>: equal up to the case of ASCII letters.
\<close>

definition g_ascii_tolower :: "char \<Rightarrow> char" where
  "g_ascii_tolower c = (if 65 \<le> byte c \<and> byte c \<le> 90 then char_of (byte c + 32) else c)"

definition ascii_caseless_eq :: "string \<Rightarrow> string \<Rightarrow> bool" where
  "ascii_caseless_eq a b = (map g_ascii_tolower a = map g_ascii_tolower b)"

text \<open>
  One round of the loop of \<^verbatim>\<open>modesetting_verify_values\<close>, for the entry
  \<open>(path, text)\<close>: \<^verbatim>\<open>g_strcmp0(text, curr)\<close> is non-zero exactly when the two differ
  (a null \<open>curr\<close> differs from every text).
\<close>

definition verify_entry :: "string \<times> string \<Rightarrow> world \<Rightarrow> world" where
  "verify_entry kv w =
     (case kv of (path, text) \<Rightarrow>
        (case modesetting_read_from_file path 0x1000 w of (cur, w1) \<Rightarrow>
           if Some text \<noteq> cur then
             modesetting_track_value (Some path) cur
               (log_msg
                  (case cur of
                     Some c \<Rightarrow> if ascii_caseless_eq text c then LOG_DEBUG else LOG_WARNING
                   | None \<Rightarrow> LOG_WARNING)
                  (''unexpected change '' @ path @ '' : '' @ text @ '' -> ''
                     @ (case cur of Some c \<Rightarrow> c | None \<Rightarrow> ''???'')) w1)
           else w1))"

text \<open>
  The loop of \<^verbatim>\<open>modesetting_verify_values\<close>, over the entries in the order the
  \<^verbatim>\<open>GHashTableIter\<close> yields them. The body changes the table the iterator walks.
  \<^verbatim>\<open>g_hash_table_replace\<close> for the key just visited, which is present, leaves the
  version of the table as it is, and the iteration goes on. \<^verbatim>\<open>g_hash_table_remove\<close>
  of that key (a null \<^verbatim>\<open>curr\<close>) changes the version: the next
  \<^verbatim>\<open>g_hash_table_iter_next\<close> fails its version check, reports a critical warning
  and returns \<^verbatim>\<open>FALSE\<close>, so the loop ends there, whatever entries are left.
\<close>

definition entry_removed :: "string \<Rightarrow> world \<Rightarrow> world \<Rightarrow> bool" where
  "entry_removed path w w1 = (tracked w path \<noteq> None \<and> tracked w1 path = None)"

fun verify_entries :: "(string \<times> string) list \<Rightarrow> world \<Rightarrow> world" where
  "verify_entries [] w = w"
| "verify_entries (kv # rest) w =
     (let w1 = verify_entry kv w
      in if entry_removed (fst kv) w w1
         then emit (GCritical ''g_hash_table_iter_next: assertion ri->version == ri->hash_table->version failed'') w1
         else verify_entries rest w1)"

definition modesetting_verify_values :: "world \<Rightarrow> world" where
  "modesetting_verify_values w =
     (case tracked_values w of
        None \<Rightarrow> w
      | Some tv \<Rightarrow> verify_entries (DAList.impl_of tv) w)"

subsection \<open>Loading a mode descriptor\<close>

text \<open>
  The key file that \<^verbatim>\<open>g_key_file_load_from_file\<close> produced: what
  \<^verbatim>\<open>g_key_file_get_string\<close> and \<^verbatim>\<open>g_key_file_get_integer\<close> answer for a group
  and a key (with a null error pointer: a null string, or \<open>0\<close>, when the key is missing or
  does not parse). The groups and keys are the macros the loader names.
\<close>

datatype kf_group = MODE_ENTRY | MODE_OPTIONS_ENTRY

datatype kf_key =
    MODE_NAME_KEY | MODE_MODULE_KEY | MODE_NEEDS_APPSYNC_KEY | MODE_MASS_STORAGE_KEY
  | MODE_NETWORK_KEY | MODE_NETWORK_INTERFACE_KEY
  | MODE_SYSFS_PATH | MODE_SYSFS_VALUE | MODE_SYSFS_RESET_VALUE
  | MODE_ANDROID_EXTRA_SYSFS_PATH | MODE_ANDROID_EXTRA_SYSFS_PATH2
  | MODE_ANDROID_EXTRA_SYSFS_PATH3 | MODE_ANDROID_EXTRA_SYSFS_PATH4
  | MODE_ANDROID_EXTRA_SYSFS_VALUE | MODE_ANDROID_EXTRA_SYSFS_VALUE2
  | MODE_ANDROID_EXTRA_SYSFS_VALUE3 | MODE_ANDROID_EXTRA_SYSFS_VALUE4
  | MODE_IDPRODUCT | MODE_IDVENDOROVERRIDE | MODE_HAS_NAT | MODE_HAS_DHCP_SERVER
  | MODE_CONNMAN_TETHERING

record keyfile =
  get_string :: "kf_group \<Rightarrow> kf_key \<Rightarrow> string option"
  get_integer :: "kf_group \<Rightarrow> kf_key \<Rightarrow> int"

definition str :: "string option \<Rightarrow> string" where
  "str s = (case s of Some t \<Rightarrow> t | None \<Rightarrow> ''(null)'')"

text \<open>
  The object \<^verbatim>\<open>modedata_load\<close> fills in after \<^verbatim>\<open>calloc\<close>: every field it does
  not assign stays null.
\<close>

definition read_keys :: "bool \<Rightarrow> keyfile \<Rightarrow> modedata" where
  "read_keys connman kf =
     \<lparr> mode_name = get_string kf MODE_ENTRY MODE_NAME_KEY,
       mode_module = get_string kf MODE_ENTRY MODE_MODULE_KEY,
       appsync = get_integer kf MODE_ENTRY MODE_NEEDS_APPSYNC_KEY,
       mass_storage = get_integer kf MODE_ENTRY MODE_MASS_STORAGE_KEY,
       network = get_integer kf MODE_ENTRY MODE_NETWORK_KEY,
       network_interface = get_string kf MODE_ENTRY MODE_NETWORK_INTERFACE_KEY,
       sysfs_path = get_string kf MODE_OPTIONS_ENTRY MODE_SYSFS_PATH,
       sysfs_value = get_string kf MODE_OPTIONS_ENTRY MODE_SYSFS_VALUE,
       sysfs_reset_value = get_string kf MODE_OPTIONS_ENTRY MODE_SYSFS_RESET_VALUE,
       android_extra_sysfs_path = get_string kf MODE_OPTIONS_ENTRY MODE_ANDROID_EXTRA_SYSFS_PATH,
       android_extra_sysfs_value = get_string kf MODE_OPTIONS_ENTRY MODE_ANDROID_EXTRA_SYSFS_VALUE,
       android_extra_sysfs_path2 = get_string kf MODE_OPTIONS_ENTRY MODE_ANDROID_EXTRA_SYSFS_PATH2,
       android_extra_sysfs_value2 = get_string kf MODE_OPTIONS_ENTRY MODE_ANDROID_EXTRA_SYSFS_VALUE2,
       android_extra_sysfs_path3 = get_string kf MODE_OPTIONS_ENTRY MODE_ANDROID_EXTRA_SYSFS_PATH3,
       android_extra_sysfs_value3 = get_string kf MODE_OPTIONS_ENTRY MODE_ANDROID_EXTRA_SYSFS_VALUE3,
       android_extra_sysfs_path4 = get_string kf MODE_OPTIONS_ENTRY MODE_ANDROID_EXTRA_SYSFS_PATH4,
       android_extra_sysfs_value4 = get_string kf MODE_OPTIONS_ENTRY MODE_ANDROID_EXTRA_SYSFS_VALUE4,
       idProduct = get_string kf MODE_OPTIONS_ENTRY MODE_IDPRODUCT,
       idVendorOverride = get_string kf MODE_OPTIONS_ENTRY MODE_IDVENDOROVERRIDE,
       nat_flag = get_integer kf MODE_OPTIONS_ENTRY MODE_HAS_NAT,
       dhcp_server = get_integer kf MODE_OPTIONS_ENTRY MODE_HAS_DHCP_SERVER,
       connman_tethering =
         (if connman then get_string kf MODE_OPTIONS_ENTRY MODE_CONNMAN_TETHERING else None),
       softconnect = None,
       softconnect_disconnect = None,
       softconnect_path = None \<rparr>"

text \<open>
  \<^verbatim>\<open>modedata_load(filename)\<close>: the descriptor, or null, and what was logged.
  \<open>load_from_file\<close> is \<^verbatim>\<open>g_key_file_load_from_file\<close> (\<open>None\<close>: it failed).
\<close>

definition modedata_load ::
    "(string \<Rightarrow> keyfile option) \<Rightarrow> bool \<Rightarrow> string \<Rightarrow> modedata option \<times> event list" where
  "modedata_load load_from_file connman filename =
     (case load_from_file filename of
        None \<Rightarrow> (None, [Log LOG_ERR (filename @ '': cannot read mode configuration file'')])
      | Some kf \<Rightarrow>
          (let list_item = read_keys connman kf;
               logs = [Log LOG_DEBUG (''Dynamic mode name = '' @ str (mode_name list_item)),
                       Log LOG_DEBUG (''Dynamic mode module = '' @ str (mode_module list_item))]
           in if mode_name list_item = None \<or> mode_module list_item = None then
                (None, logs @ [Log LOG_ERR (filename @ '': mode_name or mode_module not defined'')])
              else if network list_item \<noteq> 0 \<and> network_interface list_item = None then
                (None, logs @ [Log LOG_ERR (filename @ '': network not fully defined'')])
              else if (sysfs_path list_item \<noteq> None \<and> sysfs_value list_item = None) \<or>
                      (sysfs_reset_value list_item \<noteq> None \<and> sysfs_path list_item = None) then
                (None, logs @ [Log LOG_ERR (filename @ '': sysfs_value not fully defined'')])
              else
                (Some list_item, logs @ [Log LOG_DEBUG (filename @ '': successfully loaded'')])))"

text \<open>
  The descriptor invariants of the data model: a name and a module, a network interface
  when the mode has a network, a value with every sysfs path, a sysfs path with every reset
  value.
\<close>

definition descriptor_ok :: "modedata \<Rightarrow> bool" where
  "descriptor_ok d =
     (mode_name d \<noteq> None \<and> mode_module d \<noteq> None \<and>
      \<not> (network d \<noteq> 0 \<and> network_interface d = None) \<and>
      \<not> (sysfs_path d \<noteq> None \<and> sysfs_value d = None) \<and>
      \<not> (sysfs_reset_value d \<noteq> None \<and> sysfs_path d = None))"

subsection \<open>Strings and commands\<close>

text \<open>\<^verbatim>\<open>%d\<close> of \<^verbatim>\<open>sprintf\<close>.\<close>

function string_of_nat :: "nat \<Rightarrow> string" where
  "string_of_nat n =
     (if n < 10 then [char_of (48 + n)]
      else string_of_nat (n div 10) @ [char_of (48 + n mod 10)])"
  by pat_completeness auto
termination
  by (relation "measure id") auto

declare string_of_nat.simps [simp del]

definition string_of_int :: "int \<Rightarrow> string" where
  "string_of_int i = (if i < 0 then CHR ''-'' # string_of_nat (nat (- i)) else string_of_nat (nat i))"

text \<open>
  \<^verbatim>\<open>g_strsplit(string, delimiter, 0)\<close> for a one-character delimiter: the pieces between
  the delimiters, and no piece at all for the empty string.
\<close>

fun split_on :: "char \<Rightarrow> string \<Rightarrow> string list" where
  "split_on d [] = [[]]"
| "split_on d (c # cs) =
     (if c = d then [] # split_on d cs
      else (case split_on d cs of [] \<Rightarrow> [[c]] | t # ts \<Rightarrow> (c # t) # ts))"

definition g_strsplit :: "string \<Rightarrow> char \<Rightarrow> string list" where
  "g_strsplit s d = (if s = [] then [] else split_on d s)"

definition usbmoded_system :: "env \<Rightarrow> string \<Rightarrow> world \<Rightarrow> int \<times> world" where
  "usbmoded_system E cmd w = (system_rc E (trace w) cmd, emit (System cmd) w)"

definition lun_dir :: "int \<Rightarrow> string" where
  "lun_dir i = ''/sys/devices/platform/musb_hdrc/gadget/gadget-lun'' @ string_of_int i"

subsection \<open>Mass storage\<close>

text \<open>
  \<^verbatim>\<open>modesetting_report_mass_storage_blocker(mountpoint, try)\<close>: every line of the
  \<^verbatim>\<open>lsof\<close> output but the first is split at its first space
  (\<^verbatim>\<open>g_strsplit(text, " ", 2)\<close>, whose first piece is null for an empty text) and
  reported.
\<close>

definition report_line :: "string \<Rightarrow> world \<Rightarrow> world" where
  "report_line text w =
     (let split0 = (if text = [] then None else Some (takeWhile (\<lambda>c. c \<noteq> CHR '' '') text))
      in emit (ErrorSignal (Blocker split0))
           (log_msg LOG_ERR (''Mass storage blocked by process '' @ str split0) w))"

definition modesetting_report_mass_storage_blocker :: "env \<Rightarrow> string \<Rightarrow> int \<Rightarrow> world \<Rightarrow> world" where
  "modesetting_report_mass_storage_blocker E mountpoint try w =
     (let lsof_command = ''lsof '' @ mountpoint;
          w1 = emit (Ext (Popen lsof_command)) w;
          w2 = (case popen_lines E (trace w) lsof_command of
                  None \<Rightarrow> w1
                | Some lines \<Rightarrow> fold report_line (tl lines) w1)
      in if try = 2 then log_msg LOG_ERR ''Setting Mass storage blocked. Giving up.'' w2 else w2)"

text \<open>
  The body of the unmount loop for one mount point, from the label \<^verbatim>\<open>umount:\<close>.
  \<open>Inl ret\<close> is \<^verbatim>\<open>return(ret)\<close>; \<open>Inr try\<close> goes on to the next mount point with
  \<^verbatim>\<open>ret = 0\<close>. The counter \<^verbatim>\<open>try\<close> is a 32-bit \<^verbatim>\<open>int\<close> declared once for
  the whole function.
\<close>

lemma umount_measure_step:
  fixes t :: "32 word"
  assumes "t \<noteq> 3"
  shows "unat (3 - (t + 1)) < unat (3 - t)"
proof -
  from assms have nz: "3 - t \<noteq> 0" by simp
  have e: "3 - (t + 1) = (3 - t) - 1" by simp
  have "unat ((3 - t) - 1) = unat (3 - t) - 1" using nz by (rule unat_minus_one)
  moreover have "unat (3 - t) \<noteq> 0" using nz by (simp add: unat_eq_zero)
  ultimately show ?thesis by (simp only: e)
qed

lemma umount_measure:
  fixes t :: "32 word"
  assumes "t \<noteq> 3"
  shows "unat (2 - t) < unat (3 - t)"
  using umount_measure_step [OF assms] by simp

function umount_mountpoint ::
    "env \<Rightarrow> string \<Rightarrow> string \<Rightarrow> 32 word \<Rightarrow> world \<Rightarrow> (int + 32 word) \<times> world" where
  "umount_mountpoint E mount mountpath try w =
     (case usbmoded_system E (''mount | grep '' @ mountpath) w of (ret, w1) \<Rightarrow>
        if ret = 0 then
          (case usbmoded_system E (''umount '' @ mountpath)
                  (log_msg LOG_DEBUG (''unmount command = umount '' @ mountpath) w1) of
             (ret2, w2) \<Rightarrow>
               if ret2 \<noteq> 0 then
                 if try \<noteq> 3 then
                   umount_mountpoint E mount mountpath (try + 1)
                     (modesetting_report_mass_storage_blocker E mount 1
                        (log_msg LOG_ERR ''Umount failed. Retrying'' (emit (Sleep 1) w2)))
                 else
                   (Inl ret2,
                    emit (ErrorSignal UMOUNT_ERROR)
                      (modesetting_report_mass_storage_blocker E mount 2
                         (log_msg LOG_ERR (''Unmounting '' @ mount @ '' failed'') w2)))
               else (Inr try, w2))
        else (Inr try, w1))"
  by pat_completeness auto
termination
  by (relation "measure (\<lambda>(E, mount, mountpath, try, w). unat (3 - try))")
     (auto simp: umount_measure)

declare umount_mountpoint.simps [simp del]

text \<open>
  The loop \<^verbatim>\<open>for(i=0 ; mounts[i] != NULL; i++)\<close> that unmounts. The result is whether
  the function returned, the value of \<^verbatim>\<open>ret\<close>, and the state.
\<close>

fun umount_all ::
    "env \<Rightarrow> string \<Rightarrow> string list \<Rightarrow> int \<Rightarrow> 32 word \<Rightarrow> world \<Rightarrow> (bool \<times> int) \<times> world" where
  "umount_all E mount [] ret try w = ((False, ret), w)"
| "umount_all E mount (m # ms) ret try w =
     (let mountpath = (case realpath E m of Some real_path \<Rightarrow> real_path | None \<Rightarrow> m)
      in case umount_mountpoint E mount mountpath try w of
           (Inl r, w1) \<Rightarrow> ((True, r), w1)
         | (Inr try1, w1) \<Rightarrow> umount_all E mount ms 0 try1 w1)"

text \<open>
  The module check before unmounting: with a discrete module, the control file of the last
  logical unit must be readable, or the module is unloaded and loaded again; a failed
  \<^verbatim>\<open>modprobe\<close> returns.
\<close>

definition reload_module :: "env \<Rightarrow> modedata \<Rightarrow> int \<Rightarrow> int \<Rightarrow> world \<Rightarrow> (bool \<times> int) \<times> world" where
  "reload_module E data mountpoints ret w =
     (if mode_module data \<noteq> Some (MODULE_NONE (macros E)) then
        (let command2 = lun_dir (mountpoints - 1) @ ''/file'';
             w1 = emit (Ext (Access command2)) w
         in if access_rc E (trace w) command2 = - 1 then
              (let w2 = log_msg LOG_DEBUG
                          (command2 @ '' does not exist, unloading and reloading mass_storage'') w1;
                   w3 = emit (Ext (Modules_unload_module (MODULE_MASS_STORAGE (macros E)))) w2;
                   command3 = ''modprobe '' @ MODULE_MASS_STORAGE (macros E) @ '' luns=''
                                @ string_of_int mountpoints @ '' \<newline>'';
                   w4 = log_msg LOG_DEBUG (''usb-load command = '' @ command3) w3
               in case usbmoded_system E command3 w4 of
                    (r, w5) \<Rightarrow> if r \<noteq> 0 then ((True, r), w5) else ((False, r), w5))
            else ((False, ret), w1))
      else ((False, ret), w))"

text \<open>The loop that programs the logical units; no result is read.\<close>

fun activate_luns :: "env \<Rightarrow> modedata \<Rightarrow> int \<Rightarrow> string \<Rightarrow> string list \<Rightarrow> int \<Rightarrow> world \<Rightarrow> world" where
  "activate_luns E data fua mount [] i w = w"
| "activate_luns E data fua mount (m # ms) i w =
     activate_luns E data fua mount ms (i + 1)
       (if mode_module data \<noteq> Some (MODULE_NONE (macros E)) then
          (let command2 = ''echo '' @ string_of_int fua @ ''  > '' @ lun_dir i @ ''/nofua'';
               w1 = snd (usbmoded_system E command2
                           (log_msg LOG_DEBUG (''usb lun = '' @ command2 @ '' active'') w));
               command3 = lun_dir i @ ''/file''
           in snd (write_to_file E (Some command3) (Some m)
                     (log_msg LOG_DEBUG (''usb lun = '' @ command3 @ '' active'') w1)))
        else
          (let w1 = snd (write_to_file E (Some (ANDROID0_ENABLE (macros E))) (Some ''0'') w);
               w2 = snd (write_to_file E (Some (ANDROID0_FUNCTIONS (macros E)))
                           (Some ''mass_storage'') w1);
               w3 = snd (write_to_file E (Some ''/sys/class/android_usb/f_mass_storage/lun/file'')
                           (Some mount) w2)
           in snd (write_to_file E (Some (ANDROID0_ENABLE (macros E))) (Some ''1'') w3)))"

definition modesetting_set_mass_storage_mode :: "env \<Rightarrow> modedata \<Rightarrow> world \<Rightarrow> int \<times> world" where
  "modesetting_set_mass_storage_mode E data w =
     (let w0 = emit (StateSignal USB_PRE_UNMOUNT) w;
          fua = config_find_sync E;
          finish = (\<lambda>ret wf. (ret, if ret = 0 then emit (StateSignal DATA_IN_USE) wf else wf))
      in case config_find_mounts E of
           None \<Rightarrow> finish 0 w0
         | Some mount \<Rightarrow>
             (let mounts = g_strsplit mount CHR '','';
                  mountpoints = int (length mounts)
              in case reload_module E data mountpoints 0 w0 of
                   ((True, r), w1) \<Rightarrow> (r, w1)
                 | ((False, r), w1) \<Rightarrow>
                     (case umount_all E mount mounts r 0 w1 of
                        ((True, r2), w2) \<Rightarrow> (r2, w2)
                      | ((False, r2), w2) \<Rightarrow>
                          finish r2 (activate_luns E data fua mount mounts 0 (emit (Sleep 1) w2)))))"

text \<open>
  The loop of \<^verbatim>\<open>modesetting_unset_mass_storage_mode\<close>. \<^verbatim>\<open>mount\<close> is replaced by
  the alternative mount point once a mount has failed; \<open>data\<close> is null on the clean-up path.
\<close>

fun unset_mounts ::
    "env \<Rightarrow> modedata option \<Rightarrow> string list \<Rightarrow> int \<Rightarrow> string option \<Rightarrow> int \<Rightarrow> world \<Rightarrow> int \<times> world" where
  "unset_mounts E data [] i mount ret w = (ret, w)"
| "unset_mounts E data (m # ms) i mount ret w =
     (let mountpath = (case realpath E m of Some real_path \<Rightarrow> real_path | None \<Rightarrow> m);
          (ret1, w1) = usbmoded_system E (''mount | grep '' @ mountpath) w;
          (ret2, mount2, w2) =
            (if ret1 \<noteq> 0 then
               (case usbmoded_system E (''mount '' @ mountpath)
                       (log_msg LOG_DEBUG (''mount command = mount '' @ mountpath) w1) of
                  (r, wa) \<Rightarrow>
                    if r \<noteq> 0 then
                      (let wb = log_msg LOG_ERR (''Mounting '' @ str mount @ '' failed'') wa;
                           alt = config_find_alt_mount E;
                           (r3, wc) =
                             (case alt of
                                Some am \<Rightarrow>
                                  usbmoded_system E (''mount -t tmpfs tmpfs -o ro --size=512K '' @ am)
                                    (log_msg LOG_DEBUG ''Total failure, mount ro tmpfs as fallback'' wb)
                              | None \<Rightarrow> (r, wb))
                       in (r3, alt, emit (ErrorSignal RE_MOUNT_FAILED) wc))
                    else (r, mount, wa))
             else (ret1, mount, w1));
          w3 = (case data of
                  Some d \<Rightarrow>
                    if mode_module d = Some (MODULE_NONE (macros E)) then
                      snd (write_to_file E (Some (ANDROID0_ENABLE (macros E))) (Some ''0'')
                        (snd (write_to_file E (Some ''/sys/class/android_usb/f_mass_storage/lun/file'')
                                (Some ''0'') (log_msg LOG_DEBUG ''Disable android mass storage'' w2))))
                    else w2
                | None \<Rightarrow>
                    (let command2 = ''echo '' @ [CHR 0x22, CHR 0x22] @ ''  > '' @ lun_dir i @ ''/file''
                     in snd (usbmoded_system E command2
                               (log_msg LOG_DEBUG (''usb lun = '' @ command2 @ '' inactive'') w2))))
      in unset_mounts E data ms (i + 1) mount2 ret2 w3)"

definition modesetting_unset_mass_storage_mode :: "env \<Rightarrow> modedata option \<Rightarrow> world \<Rightarrow> int \<times> world" where
  "modesetting_unset_mass_storage_mode E data w =
     (case config_find_mounts E of
        None \<Rightarrow> (1, w)
      | Some mount \<Rightarrow> unset_mounts E data (g_strsplit mount CHR '','') 0 (Some mount) 1 w)"

subsection \<open>The delayed network retry\<close>

text \<open>
  \<^verbatim>\<open>g_timeout_add_seconds\<close> adds a source to the main loop and returns its id, which
  is greater than 0; \<^verbatim>\<open>g_source_remove\<close> takes the source with that id away.
\<close>

definition g_timeout_add_seconds :: "modedata \<Rightarrow> world \<Rightarrow> nat \<times> world" where
  "g_timeout_add_seconds data w =
     (let sid = Suc (last_source w)
      in (sid, w\<lparr>sources := sources w @ [(sid, data)], last_source := sid\<rparr>))"

definition g_source_remove :: "nat \<Rightarrow> world \<Rightarrow> world" where
  "g_source_remove sid w = w\<lparr>sources := filter (\<lambda>s. fst s \<noteq> sid) (sources w)\<rparr>"

text \<open>The callback \<^verbatim>\<open>modesetting_network_retry\<close>; it returns \<^verbatim>\<open>FALSE\<close>.\<close>

definition modesetting_network_retry :: "modedata \<Rightarrow> world \<Rightarrow> world" where
  "modesetting_network_retry data w = emit (Ext (Network_up data)) (w\<lparr>delayed_network := 0\<rparr>)"

text \<open>
  The main loop runs the callback of the pending source \<open>sid\<close> and, since the callback
  returns \<^verbatim>\<open>FALSE\<close>, destroys the source.
\<close>

definition timer_fires :: "nat \<Rightarrow> world \<Rightarrow> world" where
  "timer_fires sid w =
     (case map_of (sources w) sid of
        None \<Rightarrow> w
      | Some data \<Rightarrow> g_source_remove sid (modesetting_network_retry data w))"

subsection \<open>Setting and unsetting a dynamic mode\<close>

text \<open>
  The backend part of \<^verbatim>\<open>modesetting_set_dynamic_mode\<close>: the chain
  \<^verbatim>\<open>if( configfs_in_use() ) ... else if( android_in_use() ) ... else if( modules_in_use() )\<close>,
  entered with \<^verbatim>\<open>ret = 1\<close>. The result is the new \<^verbatim>\<open>ret\<close>.
\<close>

definition set_configfs :: "env \<Rightarrow> modedata \<Rightarrow> world \<Rightarrow> int \<times> world" where
  "set_configfs E data w =
     (let vid = config_get_android_vendor_id E;
          w1 = emit (Ext (Configfs_set_udc False)) w;
          w2 = emit (Ext (Configfs_set_productid (idProduct data))) w1;
          w3 = emit (Ext (Configfs_set_vendorid
                 (case idVendorOverride data of Some v \<Rightarrow> Some v | None \<Rightarrow> vid))) w2;
          w4 = emit (Ext (Configfs_set_function (sysfs_value data))) w3
      in (if configfs_set_udc_rc E (trace w4) True then 0 else - 1,
          emit (Ext (Configfs_set_udc True)) w4))"

definition set_android :: "env \<Rightarrow> modedata \<Rightarrow> int \<Rightarrow> world \<Rightarrow> int \<times> world" where
  "set_android E data ret0 w =
     (let w1 = snd (write_to_file E (softconnect_path data) (softconnect_disconnect data) w);
          (ret1, w2) =
            (if android_extra_sysfs_value data \<noteq> None then
               write_to_file E (android_extra_sysfs_path data) (android_extra_sysfs_value data) w1
             else (ret0, w1));
          w3 = snd (write_to_file E (android_extra_sysfs_path2 data) (android_extra_sysfs_value2 data) w2);
          w4 = emit (Ext (Android_set_productid (idProduct data))) w3;
          w5 = emit (Ext (Android_set_vendorid (idVendorOverride data))) w4;
          w6 = snd (write_to_file E (sysfs_path data) (sysfs_value data) w5)
      in if ret1 = 0 then write_to_file E (softconnect_path data) (softconnect data) w6
         else (ret1, w6))"

definition set_backend :: "env \<Rightarrow> modedata \<Rightarrow> world \<Rightarrow> int \<times> world" where
  "set_backend E data w =
     (if configfs_in_use E then set_configfs E data w
      else if android_in_use E then set_android E data 1 w
      else if modules_in_use E then (0, w)
      else (1, log_msg LOG_CRIT ''no backend is selected, cannot set dynamic mode'' w))"

text \<open>
  The network part: down and up (or \<^verbatim>\<open>ifdown\<close> and \<^verbatim>\<open>ifup\<close> in a
  \<^verbatim>\<open>DEBIAN\<close> build, which leaves \<^verbatim>\<open>network\<close> at 1), then the delayed retry when
  the network did not come up.
\<close>

definition set_network :: "env \<Rightarrow> modedata \<Rightarrow> world \<Rightarrow> int \<times> world" where
  "set_network E data w =
     (if network data \<noteq> 0 then
        (if DEBIAN (macros E) then
           (1, snd (usbmoded_system E
                      (take 255 (''ifdown '' @ str (network_interface data) @ '' ; ifup ''
                                   @ str (network_interface data))) w))
         else
           (let w1 = emit (Ext (Network_down data)) w
            in (network_up_rc E (trace w1) data, emit (Ext (Network_up data)) w1)))
      else (1, w))"

definition schedule_network_retry :: "modedata \<Rightarrow> int \<Rightarrow> world \<Rightarrow> world" where
  "schedule_network_retry data network_res w =
     (if network_res \<noteq> 0 \<and> network data \<noteq> 0 then
        (let w1 = log_msg LOG_DEBUG ''Retry setting up the network later'' w;
             w2 = (if delayed_network w1 \<noteq> 0 then g_source_remove (delayed_network w1) w1 else w1);
             (sid, w3) = g_timeout_add_seconds data w2
         in w3\<lparr>delayed_network := sid\<rparr>)
      else w)"

definition modesetting_set_dynamic_mode :: "env \<Rightarrow> modedata option \<Rightarrow> world \<Rightarrow> int \<times> world" where
  "modesetting_set_dynamic_mode E data_opt w =
     (case data_opt of
        None \<Rightarrow> (1, w)
      | Some data \<Rightarrow>
          if mass_storage data \<noteq> 0 then modesetting_set_mass_storage_mode E data w
          else if APP_SYNC (macros E) \<and> appsync data \<noteq> 0 \<and>
                  appsync_activate_sync_rc E (trace w) (mode_name data) \<noteq> 0 then
            (1, log_msg LOG_DEBUG ''Appsync failure''
                  (emit (Ext (Appsync_activate_sync (mode_name data))) w))
          else
            (let w0 = (if APP_SYNC (macros E) \<and> appsync data \<noteq> 0
                       then emit (Ext (Appsync_activate_sync (mode_name data))) w else w);
                 (ret, w1) = set_backend E data w0;
                 (network_res, w2) = set_network E data w1;
                 w3 = schedule_network_retry data network_res w2;
                 w4 = (if nat_flag data \<noteq> 0 \<or> dhcp_server data \<noteq> 0
                       then emit (Ext (Network_set_up_dhcpd data)) w3 else w3);
                 w5 = (if appsync data \<noteq> 0 \<and> ret = 0
                       then emit (Ext (Appsync_activate_sync_post (mode_name data)))
                              (emit (MSleep 350) w4)
                       else w4);
                 w6 = (if CONNMAN (macros E) \<and> connman_tethering data \<noteq> None
                       then emit (Ext (Connman_set_tethering (connman_tethering data) True)) w5
                       else w5)
             in (ret, if ret \<noteq> 0 then emit (ErrorSignal MODE_SETTING_FAILED) w6 else w6)))"

text \<open>The android branch of \<^verbatim>\<open>modesetting_unset_dynamic_mode\<close>.\<close>

definition unset_android :: "env \<Rightarrow> modedata \<Rightarrow> world \<Rightarrow> world" where
  "unset_android E data w =
     (let w1 = snd (write_to_file E (softconnect_path data) (softconnect_disconnect data) w);
          w2 = snd (write_to_file E (sysfs_path data) (sysfs_reset_value data) w1);
          w3 = (if idVendorOverride data \<noteq> None
                then emit (Ext (Android_set_vendorid (config_get_android_vendor_id E))) w2
                else w2)
      in snd (write_to_file E (softconnect_path data) (softconnect data) w3))"

definition cancel_delayed_network :: "world \<Rightarrow> world" where
  "cancel_delayed_network w =
     (if delayed_network w \<noteq> 0
      then (g_source_remove (delayed_network w) w)\<lparr>delayed_network := 0\<rparr>
      else w)"

definition modesetting_unset_dynamic_mode :: "env \<Rightarrow> modedata option \<Rightarrow> world \<Rightarrow> world" where
  "modesetting_unset_dynamic_mode E data_opt w =
     (let w0 = cancel_delayed_network w
      in case data_opt of
           None \<Rightarrow> w0
         | Some data \<Rightarrow>
             if mode_name data = Some (MODE_MASS_STORAGE (macros E)) then
               snd (modesetting_unset_mass_storage_mode E (Some data) w0)
             else
               (let w1 = (if CONNMAN (macros E) \<and> connman_tethering data \<noteq> None
                          then emit (Ext (Connman_set_tethering (connman_tethering data) False)) w0
                          else w0);
                    w2 = (if network data \<noteq> 0 then emit (Ext (Network_down data)) w1 else w1)
                in if configfs_in_use E then w2
                   else if android_in_use E then unset_android E data w2
                   else if modules_in_use E then w2
                   else log_msg LOG_CRIT ''no backend is selected, cannot unset dynamic mode'' w2))"

text \<open>
  \<^verbatim>\<open>modesetting_cleanup(module)\<close>; \<open>usb_mode\<close> is what \<^verbatim>\<open>usbmoded_get_usb_mode\<close>
  returns and \<open>data_opt\<close> what \<^verbatim>\<open>usbmoded_get_usb_mode_data\<close> returns.
\<close>

definition modesetting_cleanup ::
    "env \<Rightarrow> string option \<Rightarrow> string \<Rightarrow> modedata option \<Rightarrow> world \<Rightarrow> int \<times> world" where
  "modesetting_cleanup E module usb_mode data_opt w =
     (let w0 = log_msg LOG_DEBUG ''Cleaning up mode'' w
      in case module of
           None \<Rightarrow> (0, log_msg LOG_WARNING ''No module found to unload. Skipping cleanup'' w0)
         | Some m \<Rightarrow>
             (let w1 = (if APP_SYNC (macros E) then emit (Ext (Appsync_stop False)) w0 else w0)
              in if m = MODULE_MASS_STORAGE (macros E) \<or> m = MODULE_FILE_STORAGE (macros E) then
                   (if usb_mode = MODE_CHARGING (macros E) \<or> usb_mode = MODE_CHARGING_FALLBACK (macros E)
                    then (0, w1)
                    else (0, snd (modesetting_unset_mass_storage_mode E None w1)))
                 else if data_opt \<noteq> None then (0, modesetting_unset_dynamic_mode E data_opt w1)
                 else (0, w1)))"

subsection \<open>Sequences of operations\<close>

text \<open>
  What the daemon's state machine and the main loop can do to the mode setting code, one
  call after the other: activate or deactivate with the current descriptor, clean up, let
  a pending timer fire, verify the tracked values.
\<close>

datatype operation =
    Activate "modedata option"
  | Deactivate "modedata option"
  | Cleanup "string option" string "modedata option"
  | TimerFires nat
  | VerifyValues

fun step :: "env \<Rightarrow> operation \<Rightarrow> world \<Rightarrow> world" where
  "step E (Activate d) w = snd (modesetting_set_dynamic_mode E d w)"
| "step E (Deactivate d) w = modesetting_unset_dynamic_mode E d w"
| "step E (Cleanup m u d) w = snd (modesetting_cleanup E m u d w)"
| "step E (TimerFires sid) w = timer_fires sid w"
| "step E VerifyValues w = modesetting_verify_values w"

fun run :: "env \<Rightarrow> operation list \<Rightarrow> world \<Rightarrow> world" where
  "run E [] w = w"
| "run E (oper # opers) w = run E opers (step E oper w)"

text \<open>The state at start-up, after \<^verbatim>\<open>modesetting_init\<close>, over a given file system.\<close>

definition startup :: "(string \<Rightarrow> fnode) \<Rightarrow> world" where
  "startup fs =
     modesetting_init
       \<lparr> tracked_values = None, delayed_network = 0, sources = [], last_source = 0,
         files = fs, trace = [] \<rparr>"

subsection \<open>Reference definitions\<close>

text \<open>
  The normal form of the read contract, in the words of the specification: the text is what
  comes before the first zero byte; every run of blanks (the bytes 1 to 32: white space and
  control characters) is collapsed to one space; leading and trailing blanks are trimmed.
\<close>

definition is_blank :: "char \<Rightarrow> bool" where
  "is_blank c = (0 < byte c \<and> byte c \<le> 32)"

definition cstr :: "string \<Rightarrow> string" where
  "cstr s = takeWhile (\<lambda>c. byte c \<noteq> 0) s"

fun collapse :: "string \<Rightarrow> string" where
  "collapse [] = []"
| "collapse (c # cs) =
     (if is_blank c then (case cs of [] \<Rightarrow> [CHR '' '']
                          | d # ds \<Rightarrow> if is_blank d then collapse cs else CHR '' '' # collapse cs)
      else c # collapse cs)"

definition ltrim :: "string \<Rightarrow> string" where
  "ltrim s = dropWhile is_blank s"

fun rtrim :: "string \<Rightarrow> string" where
  "rtrim [] = []"
| "rtrim (c # cs) = (if is_blank c \<and> rtrim cs = [] then [] else c # rtrim cs)"

definition normalize_spec :: "string \<Rightarrow> string" where
  "normalize_spec s = rtrim (ltrim (collapse (cstr s)))"

text \<open>
  The normal form as the claim words it, over the whole content: every maximal run of
  white space or control characters (in ASCII the bytes 0 to 32 and 127) becomes one space,
  and leading and trailing white space is trimmed.
\<close>

definition is_space_or_control :: "char \<Rightarrow> bool" where
  "is_space_or_control c = (byte c \<le> 32 \<or> byte c = 127)"

fun collapse_claimed :: "string \<Rightarrow> string" where
  "collapse_claimed [] = []"
| "collapse_claimed (c # cs) =
     (if is_space_or_control c
      then (case cs of [] \<Rightarrow> [CHR '' '']
            | d # ds \<Rightarrow> if is_space_or_control d then collapse_claimed cs
                       else CHR '' '' # collapse_claimed cs)
      else c # collapse_claimed cs)"

fun rtrim_claimed :: "string \<Rightarrow> string" where
  "rtrim_claimed [] = []"
| "rtrim_claimed (c # cs) =
     (if is_space_or_control c \<and> rtrim_claimed cs = [] then [] else c # rtrim_claimed cs)"

definition normalize_claimed :: "string \<Rightarrow> string" where
  "normalize_claimed s = rtrim_claimed (dropWhile is_space_or_control (collapse_claimed s))"

text \<open>The live value of an attribute: what the bounded read returns for the path.\<close>

definition live :: "world \<Rightarrow> string \<Rightarrow> string option" where
  "live w path = fst (modesetting_read_from_file path 0x1000 w)"

subsection \<open>Example file systems and descriptors\<close>

text \<open>
  A path that does not exist, a directory (it opens, but cannot be read or written), and a
  readable and writable attribute file with the given bytes.
\<close>

definition no_file :: fnode where
  "no_file = \<lparr> open_rd = Some ENOENT, read_res = Inl EIO, open_wr = Some ENOENT, write_res = Inl EIO \<rparr>"

definition dir_node :: fnode where
  "dir_node = \<lparr> open_rd = None, read_res = Inl EISDIR, open_wr = Some EISDIR, write_res = Inl EISDIR \<rparr>"

definition attr_node :: "string \<Rightarrow> fnode" where
  "attr_node bytes = \<lparr> open_rd = None, read_res = Inr bytes, open_wr = None, write_res = Inr 4095 \<rparr>"

text \<open>
  A descriptor as \<^verbatim>\<open>calloc\<close> leaves it, and an environment with the android backend in
  use, no mount points configured, every external call succeeding, and attribute files that
  read back the last chunk written to them.
\<close>

definition calloc_mode :: modedata where
  "calloc_mode =
     \<lparr> mode_name = None, mode_module = None, appsync = 0, mass_storage = 0, network = 0,
       network_interface = None, sysfs_path = None, sysfs_value = None, sysfs_reset_value = None,
       android_extra_sysfs_path = None, android_extra_sysfs_value = None,
       android_extra_sysfs_path2 = None, android_extra_sysfs_value2 = None,
       android_extra_sysfs_path3 = None, android_extra_sysfs_value3 = None,
       android_extra_sysfs_path4 = None, android_extra_sysfs_value4 = None,
       idProduct = None, idVendorOverride = None, nat_flag = 0, dhcp_server = 0,
       connman_tethering = None, softconnect = None, softconnect_disconnect = None,
       softconnect_path = None \<rparr>"

definition example_macros :: macros where
  "example_macros =
     \<lparr> APP_SYNC = True, DEBIAN = False, CONNMAN = False,
       MODULE_NONE = ''none'', MODULE_MASS_STORAGE = ''g_mass_storage'',
       MODULE_FILE_STORAGE = ''g_file_storage'', MODE_MASS_STORAGE = ''mass_storage'',
       MODE_CHARGING = ''charging_only'', MODE_CHARGING_FALLBACK = ''charging_only_fallback'',
       ANDROID0_ENABLE = ''/sys/class/android_usb/android0/enable'',
       ANDROID0_FUNCTIONS = ''/sys/class/android_usb/android0/functions'' \<rparr>"

definition android_env :: env where
  "android_env =
     \<lparr> macros = example_macros, configfs_in_use = False, android_in_use = True,
       modules_in_use = False, config_find_sync = 0, config_find_mounts = None,
       config_find_alt_mount = None, config_get_android_vendor_id = Some ''0x1D6B'',
       realpath = (\<lambda>p. None), system_rc = (\<lambda>tr cmd. 0), access_rc = (\<lambda>tr p. 0),
       popen_lines = (\<lambda>tr cmd. None), configfs_set_udc_rc = (\<lambda>tr b. True),
       appsync_activate_sync_rc = (\<lambda>tr n. 0), network_up_rc = (\<lambda>tr d. 0),
       store = (\<lambda>path chunk node. node\<lparr>read_res := Inr chunk\<rparr>) \<rparr>"

text \<open>
  A state that tracks two attributes: \<^verbatim>\<open>/sys/a\<close>, which does not exist any more, and
  \<^verbatim>\<open>/sys/b\<close>, expected to hold \<^verbatim>\<open>x\<close> and reading \<^verbatim>\<open>y\<close>.
\<close>

definition two_drifted :: world where
  "two_drifted =
     (startup (\<lambda>p. if p = ''/sys/a'' then no_file else attr_node ''y''))
       \<lparr>tracked_values :=
          Some (DAList.update ''/sys/b'' ''x'' (DAList.update ''/sys/a'' ''1'' DAList.empty))\<rparr>"


text \<open>
  Three key files: a mode with a network and no interface, a mode with a reset value and
  no sysfs path, and a complete developer mode.
\<close>

definition network_without_interface :: keyfile where
  "network_without_interface =
     \<lparr> get_string = (\<lambda>g k. if k = MODE_NAME_KEY then Some ''developer_mode''
                            else if k = MODE_MODULE_KEY then Some ''none'' else None),
       get_integer = (\<lambda>g k. if k = MODE_NETWORK_KEY then 1 else 0) \<rparr>"

definition reset_without_path :: keyfile where
  "reset_without_path =
     \<lparr> get_string = (\<lambda>g k. if k = MODE_NAME_KEY then Some ''host_mode''
                            else if k = MODE_MODULE_KEY then Some ''none''
                            else if k = MODE_SYSFS_RESET_VALUE then Some ''peripheral'' else None),
       get_integer = (\<lambda>g k. 0) \<rparr>"

definition developer_mode_ini :: keyfile where
  "developer_mode_ini =
     \<lparr> get_string = (\<lambda>g k. if k = MODE_NAME_KEY then Some ''developer_mode''
                            else if k = MODE_MODULE_KEY then Some ''none''
                            else if k = MODE_NETWORK_INTERFACE_KEY then Some ''rndis0''
                            else if k = MODE_SYSFS_PATH then Some ''/sys/class/android_usb/android0/functions''
                            else if k = MODE_SYSFS_VALUE then Some ''rndis''
                            else None),
       get_integer = (\<lambda>g k. if k = MODE_NETWORK_KEY then 1 else 0) \<rparr>"

text \<open>
  A step is steady when it leaves the timer state alone and only appends events other than
  the data-in-use signal to the trace.
\<close>

definition quiet :: "event \<Rightarrow> bool" where
  "quiet ev = (ev \<noteq> StateSignal DATA_IN_USE)"

definition steady :: "world \<Rightarrow> world \<Rightarrow> bool" where
  "steady w w' =
     (sources w' = sources w \<and> delayed_network w' = delayed_network w \<and>
      last_source w' = last_source w \<and>
      (\<exists>evs. trace w' = trace w @ evs \<and> list_all quiet evs))"

text \<open>
  The timer invariant: the pending sources are exactly the one named by
  \<^verbatim>\<open>delayed_network\<close>, if any.
\<close>

definition timer_inv :: "world \<Rightarrow> bool" where
  "timer_inv w =
     (map fst (sources w) = (if delayed_network w = 0 then [] else [delayed_network w]) \<and>
      delayed_network w \<le> last_source w)"

text \<open>
  A network mode as the loader produces it, and an environment in which the network never
  comes up at the first attempt.
\<close>

definition net_mode :: modedata where
  "net_mode = calloc_mode\<lparr>mode_name := Some ''developer_mode'', mode_module := Some ''none'',
                           network := 1, network_interface := Some ''rndis0''\<rparr>"

definition net_down_env :: env where
  "net_down_env = android_env\<lparr>network_up_rc := (\<lambda>tr d. 1)\<rparr>"

text \<open>
  An android mode without extra attributes and without a reset value, as a plain MTP mode
  is configured.
\<close>

definition mtp_mode :: modedata where
  "mtp_mode = calloc_mode\<lparr>mode_name := Some ''mtp_mode'', mode_module := Some ''none'',
     sysfs_path := Some ''/sys/class/android_usb/android0/functions'', sysfs_value := Some ''mtp'',
     softconnect_path := Some ''/sys/class/android_usb/android0/enable'',
     softconnect := Some ''1'', softconnect_disconnect := Some ''0''\<rparr>"
text \<open>
  A step leaves the path \<open>p\<close> untouched when the file at \<open>p\<close> and the value tracked
  for \<open>p\<close> are the same before and after.
\<close>

definition untouched :: "string \<Rightarrow> world \<Rightarrow> world \<Rightarrow> bool" where
  "untouched p w w' = (files w' p = files w p \<and> tracked w' p = tracked w p)"

text \<open>
  An android mode with one extra attribute, and a file system on which the
  \<^verbatim>\<open>functions\<close> attribute does not exist while every other attribute does.
\<close>

definition rndis_mode :: modedata where
  "rndis_mode = calloc_mode\<lparr>mode_name := Some ''developer_mode'', mode_module := Some ''none'',
     sysfs_path := Some ''/sys/class/android_usb/android0/functions'', sysfs_value := Some ''rndis'',
     android_extra_sysfs_path := Some ''/sys/class/android_usb/android0/f_rndis/wceis'',
     android_extra_sysfs_value := Some ''1'',
     softconnect_path := Some ''/sys/class/android_usb/android0/enable'',
     softconnect := Some ''1'', softconnect_disconnect := Some ''0''\<rparr>"

definition functions_missing :: "string \<Rightarrow> fnode" where
  "functions_missing p =
     (if p = ''/sys/class/android_usb/android0/functions'' then no_file else attr_node ''0'')"

text \<open>
  A mass-storage mode on the android backend; an environment that shares \<^verbatim>\<open>/media/a\<close>,
  which is not mounted; and one that shares \<^verbatim>\<open>/a\<close> and \<^verbatim>\<open>/b\<close>, both mounted,
  where unmounting \<^verbatim>\<open>/a\<close> fails once and then works, and unmounting \<^verbatim>\<open>/b\<close>
  always fails. The third shares only \<^verbatim>\<open>/b\<close>.
\<close>

definition storage_mode :: modedata where
  "storage_mode = calloc_mode\<lparr>mode_name := Some ''mass_storage'', mode_module := Some ''none'',
                               mass_storage := 1\<rparr>"


definition busy_rc :: "event list \<Rightarrow> string \<Rightarrow> int" where
  "busy_rc tr cmd =
     (if cmd = ''umount /a'' then (if System ''umount /a'' \<in> set tr then 0 else 1)
      else if cmd = ''umount /b'' then 1
      else 0)"

definition busy_env :: env where
  "busy_env = android_env\<lparr>config_find_mounts := Some ''/a,/b'', system_rc := busy_rc\<rparr>"

definition busy_b_env :: env where
  "busy_b_env = android_env\<lparr>config_find_mounts := Some ''/b'', system_rc := busy_rc\<rparr>"



section \<open>Properties\<close>

subsection \<open>The strip loop computes the normal form\<close>

lemma blank_space: "is_blank CHR '' ''"
  by (simp add: is_blank_def byte_def)

lemma char_class: "byte c = 0 \<or> is_blank c \<or> 32 < byte c"
  unfolding is_blank_def by arith

lemma strip_loop_Nil: "strip_loop [] = []"
  by (subst strip_loop.simps) (simp add: peek_def)

lemma strip_loop_nul: "byte c = 0 \<Longrightarrow> strip_loop (c # cs) = []"
  by (subst strip_loop.simps) (simp add: peek_def)

lemma strip_loop_graph: "32 < byte c \<Longrightarrow> strip_loop (c # cs) = c # strip_loop cs"
  by (subst strip_loop.simps, subst (2) strip_loop.simps) (simp add: Let_def split: prod.splits)

lemma strip_loop_blank:
  "is_blank c \<Longrightarrow> strip_loop (c # cs) =
     (if peek (skip_blank cs) = 0 then [] else CHR '' '' # strip_loop (skip_blank cs))"
  by (subst strip_loop.simps) (simp add: is_blank_def)

lemma collapse_graph_ne: "\<not> is_blank c \<Longrightarrow> rtrim (c # cs) = c # rtrim cs"
  by simp

lemma strip_loop_spec: "strip_loop s = rtrim (collapse (cstr s))"
proof (induction s)
  case Nil
  show ?case by (simp add: strip_loop_Nil cstr_def)
next
  case (Cons c cs)
  consider (nul) "byte c = 0" | (blank) "is_blank c" | (graph) "32 < byte c"
    using char_class [of c] by fastforce
  then show ?case
  proof cases
    case nul
    then show ?thesis by (simp add: strip_loop_nul cstr_def)
  next
    case graph
    then have nb: "\<not> is_blank c" and nz: "byte c \<noteq> 0" by (auto simp: is_blank_def)
    have "cstr (c # cs) = c # cstr cs" using nz by (simp add: cstr_def)
    with graph nb Cons.IH show ?thesis by (simp add: strip_loop_graph)
  next
    case blank
    then have nz: "byte c \<noteq> 0" by (auto simp: is_blank_def)
    have cs_c: "cstr (c # cs) = c # cstr cs" using nz by (simp add: cstr_def)
    show ?thesis
    proof (cases cs)
      case Nil
      with blank cs_c show ?thesis
        by (simp add: strip_loop_blank peek_def cstr_def blank_space)
    next
      case (Cons d ds)
      consider (dnul) "byte d = 0" | (dblank) "is_blank d" | (dgraph) "32 < byte d"
        using char_class [of d] by fastforce
      then show ?thesis
      proof cases
        case dnul
        with blank Cons nz show ?thesis
          by (simp add: strip_loop_blank peek_def cstr_def blank_space)
      next
        case dblank
        then have dz: "byte d \<noteq> 0" by (auto simp: is_blank_def)
        have "strip_loop (c # cs) = strip_loop cs"
          using blank dblank Cons by (simp add: strip_loop_blank) (simp add: is_blank_def)
        moreover have "collapse (cstr (c # cs)) = collapse (cstr cs)"
          using blank dblank Cons nz dz by (simp add: cstr_def)
        ultimately show ?thesis using Cons.IH by simp
      next
        case dgraph
        then have dnb: "\<not> is_blank d" and dz: "byte d \<noteq> 0" by (auto simp: is_blank_def)
        have "strip_loop (c # cs) = CHR '' '' # strip_loop cs"
          using blank dgraph dnb Cons by (simp add: strip_loop_blank peek_def)
        moreover have "collapse (cstr (c # cs)) = CHR '' '' # collapse (cstr cs)"
          using blank dnb Cons nz dz by (simp add: cstr_def)
        moreover have "rtrim (collapse (cstr cs)) \<noteq> []"
          using dnb dz Cons by (simp add: cstr_def)
        ultimately show ?thesis using Cons.IH by (simp add: blank_space)
      qed
    qed
  qed
qed

lemma collapse_skip_blank: "collapse (cstr (skip_blank s)) = ltrim (collapse (cstr s))"
proof (induction s)
  case Nil
  show ?case by (simp add: cstr_def ltrim_def)
next
  case (Cons c cs)
  consider (nul) "byte c = 0" | (blank) "is_blank c" | (graph) "32 < byte c"
    using char_class [of c] by fastforce
  then show ?case
  proof cases
    case nul
    then show ?thesis by (simp add: cstr_def ltrim_def)
  next
    case graph
    then have nb: "\<not> is_blank c" and nz: "byte c \<noteq> 0" by (auto simp: is_blank_def)
    from graph nb nz show ?thesis by (simp add: cstr_def ltrim_def)
  next
    case blank
    then have nz: "byte c \<noteq> 0" by (auto simp: is_blank_def)
    have "skip_blank (c # cs) = skip_blank cs" using blank by (simp add: is_blank_def)
    moreover have "ltrim (collapse (cstr (c # cs))) = ltrim (collapse (cstr cs))"
      using blank nz by (cases cs) (auto simp: cstr_def ltrim_def blank_space)
    ultimately show ?thesis using Cons.IH by simp
  qed
qed

lemma modesetting_strip_spec: "modesetting_strip s = normalize_spec s"
  by (simp add: modesetting_strip_def normalize_spec_def strip_loop_spec collapse_skip_blank)

subsection \<open>Reading, tracking and verifying\<close>

lemma read_files [simp]: "files (snd (modesetting_read_from_file p n w)) = files w"
  by (simp add: modesetting_read_from_file_def log_msg_def emit_def split: option.splits sum.splits)

lemma read_tracked_values [simp]:
  "tracked_values (snd (modesetting_read_from_file p n w)) = tracked_values w"
  by (simp add: modesetting_read_from_file_def log_msg_def emit_def split: option.splits sum.splits)

lemma read_Some_quiet:
  "fst (modesetting_read_from_file p n w) = Some t \<Longrightarrow> modesetting_read_from_file p n w = (Some t, w)"
  by (auto simp: modesetting_read_from_file_def split: option.splits sum.splits)

lemma live_files: "files w' = files w \<Longrightarrow> live w' p = live w p"
  by (simp add: live_def modesetting_read_from_file_def split: option.splits sum.splits)

lemma verify_entry_files [simp]: "files (verify_entry kv w) = files w"
proof -
  obtain p t where kv: "kv = (p, t)" by (cases kv)
  obtain c w1 where r: "modesetting_read_from_file p 0x1000 w = (c, w1)" by (cases "modesetting_read_from_file p 0x1000 w")
  have "files w1 = files w" using read_files [of p "0x1000" w] r by simp
  then show ?thesis
    by (simp add: kv r verify_entry_def modesetting_track_value_def log_msg_def emit_def
        split: option.splits)
qed

lemma verify_entry_tracked:
  "tracked (verify_entry (p, t) w) q =
     (if q = p \<and> tracked_values w \<noteq> None \<and> Some t \<noteq> live w p then live w p else tracked w q)"
proof -
  obtain c w1 where r: "modesetting_read_from_file p 0x1000 w = (c, w1)" by (cases "modesetting_read_from_file p 0x1000 w")
  have tv: "tracked_values w1 = tracked_values w" using read_tracked_values [of p "0x1000" w] r by simp
  have c: "live w p = c" by (simp add: live_def r)
  show ?thesis
    by (auto simp: c r tv verify_entry_def modesetting_track_value_def log_msg_def emit_def tracked_def
        split: option.splits)
qed

lemma verify_entry_initialised [simp]:
  "(tracked_values (verify_entry kv w) = None) = (tracked_values w = None)"
proof -
  obtain p t where kv: "kv = (p, t)" by (cases kv)
  obtain c w1 where r: "modesetting_read_from_file p 0x1000 w = (c, w1)" by (cases "modesetting_read_from_file p 0x1000 w")
  have tv: "tracked_values w1 = tracked_values w" using read_tracked_values [of p "0x1000" w] r by simp
  show ?thesis
    by (auto simp: kv r tv verify_entry_def modesetting_track_value_def log_msg_def emit_def
        split: option.splits)
qed

lemma verify_entries_files [simp]: "files (verify_entries kvs w) = files w"
  by (induction kvs arbitrary: w) (auto simp: Let_def emit_def)

lemma verify_entries_initialised [simp]:
  "(tracked_values (verify_entries kvs w) = None) = (tracked_values w = None)"
  by (induction kvs arbitrary: w) (auto simp: Let_def emit_def)

lemma verify_entries_tracked:
  assumes "distinct (map fst kvs)" and "tracked_values w \<noteq> None"
    and "\<forall>(p, t) \<in> set kvs. tracked w p = Some t"
    and "\<forall>(p, t) \<in> set kvs. live w p \<noteq> None"
  shows "tracked (verify_entries kvs w) q = (if q \<in> fst ` set kvs then live w q else tracked w q)"
  using assms
proof (induction kvs arbitrary: w)
  case Nil
  show ?case by simp
next
  case (Cons kv kvs)
  obtain p t where kv: "kv = (p, t)" by (cases kv)
  let ?w1 = "verify_entry kv w"
  have pt: "tracked w p = Some t" using Cons.prems(3) kv by simp
  have pl: "live w p \<noteq> None" using Cons.prems(4) kv by simp
  have pnot: "p \<notin> fst ` set kvs" using Cons.prems(1) kv by simp
  have lv: "\<And>x. live ?w1 x = live w x" by (rule live_files) simp
  have tp: "tracked ?w1 p = live w p"
    using pt Cons.prems(2) by (auto simp: kv verify_entry_tracked)
  have keep: "\<not> entry_removed (fst kv) w ?w1"
    using tp pl by (simp add: entry_removed_def kv)
  have rest: "\<forall>(p', t') \<in> set kvs. tracked ?w1 p' = Some t'"
    using Cons.prems(3) pnot by (force simp: kv verify_entry_tracked)
  have rest2: "\<forall>(p', t') \<in> set kvs. live ?w1 p' \<noteq> None"
    using Cons.prems(4) by (auto simp: lv)
  have "tracked (verify_entries kvs ?w1) q = (if q \<in> fst ` set kvs then live ?w1 q else tracked ?w1 q)"
    using Cons.prems(1,2) rest rest2 by (intro Cons.IH) auto
  then have step: "tracked (verify_entries kvs ?w1) q = (if q \<in> fst ` set kvs then live w q else tracked ?w1 q)"
    by (simp only: lv)
  have other: "q \<noteq> p \<Longrightarrow> tracked ?w1 q = tracked w q"
    by (simp add: kv verify_entry_tracked)
  have go: "verify_entries (kv # kvs) w = verify_entries kvs ?w1"
    using keep by (simp add: Let_def)
  show ?case
  proof (cases "q = p")
    case True
    with step pnot tp show ?thesis unfolding go by (simp add: kv)
  next
    case False
    with step other show ?thesis unfolding go by (simp add: kv)
  qed
qed

lemma verify_entry_settled:
  "modesetting_read_from_file p 0x1000 w = (Some t, w) \<Longrightarrow> verify_entry (p, t) w = w"
  by (simp add: verify_entry_def)

lemma verify_entries_settled:
  "\<forall>(p, t) \<in> set kvs. live w p = Some t \<Longrightarrow> verify_entries kvs w = w"
proof (induction kvs)
  case Nil
  show ?case by simp
next
  case (Cons kv kvs)
  obtain p t where kv: "kv = (p, t)" by (cases kv)
  have "live w p = Some t" using Cons.prems kv by simp
  then have "modesetting_read_from_file p 0x1000 w = (Some t, w)"
    unfolding live_def by (rule read_Some_quiet)
  then have "verify_entry kv w = w" by (simp add: kv verify_entry_settled)
  with Cons show ?case by (auto simp: Let_def entry_removed_def)
qed

lemma tracked_impl_of:
  "tracked_values w = Some tv \<Longrightarrow> tracked w p = Some t \<longleftrightarrow> (p, t) \<in> set (DAList.impl_of tv)"
  by (simp add: tracked_def DAList.lookup.rep_eq)

lemma verify_values_tracked:
  assumes "\<forall>p. tracked w p \<noteq> None \<longrightarrow> live w p \<noteq> None"
  shows "tracked (modesetting_verify_values w) q = (if tracked w q = None then None else live w q)"
proof (cases "tracked_values w")
  case None
  then show ?thesis by (simp add: modesetting_verify_values_def tracked_def)
next
  case (Some tv)
  have "tracked (verify_entries (DAList.impl_of tv) w) q =
          (if q \<in> fst ` set (DAList.impl_of tv) then live w q else tracked w q)"
    using Some assms by (intro verify_entries_tracked) (auto simp: tracked_impl_of)
  moreover have "q \<in> fst ` set (DAList.impl_of tv) \<longleftrightarrow> tracked w q \<noteq> None"
    using Some by (force simp: tracked_def DAList.lookup.rep_eq map_of_eq_None_iff)
  ultimately show ?thesis using Some by (auto simp: modesetting_verify_values_def)
qed

lemma verify_values_files: "files (modesetting_verify_values w) = files w"
  by (simp add: modesetting_verify_values_def split: option.splits)

lemma verify_values_settled:
  assumes "\<forall>p t. tracked w p = Some t \<longrightarrow> live w p = Some t"
  shows "modesetting_verify_values w = w"
proof (cases "tracked_values w")
  case None
  then show ?thesis by (simp add: modesetting_verify_values_def)
next
  case (Some tv)
  have "verify_entries (DAList.impl_of tv) w = w"
    using assms Some by (intro verify_entries_settled) (auto simp: tracked_impl_of)
  with Some show ?thesis by (simp add: modesetting_verify_values_def)
qed

text \<open>
  As long as every tracked path can be read, no entry is removed, the sweep reaches every
  entry, each ends up holding its live value, and a second sweep changes nothing.
\<close>

lemma verify_values_all_readable:
  assumes "\<forall>p. tracked w p \<noteq> None \<longrightarrow> live w p \<noteq> None"
  shows "tracked (modesetting_verify_values w) q = (if tracked w q = None then None else live w q)"
    and "modesetting_verify_values (modesetting_verify_values w) = modesetting_verify_values w"
proof -
  let ?w' = "modesetting_verify_values w"
  show t: "tracked ?w' q = (if tracked w q = None then None else live w q)"
    using assms by (rule verify_values_tracked)
  have lv: "\<And>x. live ?w' x = live w x" by (rule live_files) (rule verify_values_files)
  have "\<forall>p t. tracked ?w' p = Some t \<longrightarrow> live ?w' p = Some t"
    using assms by (auto simp: verify_values_tracked lv split: if_splits)
  then show "modesetting_verify_values ?w' = ?w'" by (rule verify_values_settled)
qed

lemma tracked_track_value:
  "tracked (modesetting_track_value path text w) q =
     (case tracked_values w of
        None \<Rightarrow> None
      | Some tv \<Rightarrow> (case path of None \<Rightarrow> tracked w q
                   | Some p \<Rightarrow> if q = p then text else tracked w q))"
  by (auto simp: modesetting_track_value_def tracked_def split: option.splits)

text \<open>
  C8, as amended. \<^verbatim>\<open>modesetting_track_value\<close> changes nothing when the table has not
  been created or the path is null. With a table and a path, a text becomes the value
  tracked for the path, a null text removes the entry, and no other entry and no other part
  of the state changes. The function has no error result.
\<close>

theorem track_value_contract:
  "(tracked_values w = None \<or> path = None \<longrightarrow> modesetting_track_value path text w = w) \<and>
   (tracked_values w \<noteq> None \<longrightarrow>
      tracked (modesetting_track_value (Some p) (Some t) w) p = Some t \<and>
      tracked (modesetting_track_value (Some p) None w) p = None \<and>
      (q \<noteq> p \<longrightarrow> tracked (modesetting_track_value (Some p) text w) q = tracked w q) \<and>
      tracked_values (modesetting_track_value (Some p) text w) \<noteq> None \<and>
      files (modesetting_track_value (Some p) text w) = files w \<and>
      trace (modesetting_track_value (Some p) text w) = trace w \<and>
      sources (modesetting_track_value (Some p) text w) = sources w \<and>
      delayed_network (modesetting_track_value (Some p) text w) = delayed_network w)"
  by (auto simp: tracked_track_value) (auto simp: modesetting_track_value_def split: option.splits)

theorem track_value_contract_witness:
  "modesetting_track_value None (Some ''2'') two_drifted = two_drifted \<and>
   modesetting_track_value (Some ''/sys/a'') (Some ''2'') (modesetting_quit two_drifted)
     = modesetting_quit two_drifted \<and>
   tracked two_drifted ''/sys/a'' = Some ''1'' \<and>
   tracked (modesetting_track_value (Some ''/sys/a'') (Some ''2'') two_drifted) ''/sys/a'' = Some ''2'' \<and>
   tracked (modesetting_track_value (Some ''/sys/a'') (Some ''2'') two_drifted) ''/sys/b'' = Some ''x'' \<and>
   tracked (modesetting_track_value (Some ''/sys/a'') None two_drifted) ''/sys/a'' = None \<and>
   tracked (modesetting_track_value (Some ''/sys/a'') None two_drifted) ''/sys/b'' = Some ''x''"
proof -
  have i: "tracked_values two_drifted \<noteq> None" by (simp add: two_drifted_def)
  have q: "tracked_values (modesetting_quit two_drifted) = None"
    by (simp add: modesetting_quit_def two_drifted_def)
  have t: "tracked two_drifted ''/sys/a'' = Some ''1''" "tracked two_drifted ''/sys/b'' = Some ''x''"
    by (simp_all add: tracked_def two_drifted_def)
  show ?thesis
    using track_value_contract [of two_drifted None "Some ''2''" "''/sys/a''" "''2''" "''/sys/b''"]
      track_value_contract [of two_drifted "Some ''/sys/a''" "Some ''2''" "''/sys/a''" "''2''" "''/sys/b''"]
      track_value_contract [of two_drifted "Some ''/sys/a''" None "''/sys/a''" "''2''" "''/sys/b''"]
      track_value_contract [of "modesetting_quit two_drifted" "Some ''/sys/a''" "Some ''2''"]
      i q t
    by simp
qed

text \<open>
  The claim as stated, with a no-op for an empty path, fails for the empty string: the code
  tests the pointer only, and an empty path that is not null gets an entry like any other.
\<close>

theorem track_value_counterexample:
  "tracked (startup (\<lambda>p. no_file)) [] = None \<and>
   tracked (modesetting_track_value (Some []) (Some ''1'') (startup (\<lambda>p. no_file))) [] = Some ''1''"
  by (simp add: tracked_def modesetting_track_value_def startup_def modesetting_init_def)

lemma length_rtrim: "length (rtrim s) \<le> length s"
  by (induction s) auto

lemma length_collapse: "length (collapse s) \<le> length s"
proof (induction s)
  case Nil
  show ?case by simp
next
  case (Cons c cs)
  show ?case
  proof (cases cs)
    case Nil
    then show ?thesis by simp
  next
    case (Cons d ds)
    have "length (collapse (c # cs)) \<le> Suc (length (collapse cs))"
      unfolding Cons by (simp del: collapse.simps add: collapse.simps(2) [of c])
    with Cons.IH show ?thesis by simp
  qed
qed

lemma length_normalize_spec: "length (normalize_spec s) \<le> length s"
proof -
  have "length (rtrim (ltrim (collapse (cstr s)))) \<le> length (ltrim (collapse (cstr s)))"
    by (rule length_rtrim)
  also have "\<dots> \<le> length (collapse (cstr s))"
    by (simp add: ltrim_def length_dropWhile_le)
  also have "\<dots> \<le> length (cstr s)" by (rule length_collapse)
  also have "\<dots> \<le> length s" by (simp add: cstr_def length_takeWhile_le)
  finally show ?thesis by (simp add: normalize_spec_def)
qed





text \<open>
  C9, as amended. The bounded read, called with the size \<^verbatim>\<open>0x1000\<close> every caller uses:
  a missing file or a denied permission gives no value and no log; any other failure of
  \<^verbatim>\<open>open\<close>, and a failure of \<^verbatim>\<open>read\<close>, gives no value and a warning; a read that
  succeeds gives the normal form of at most the first 4096 bytes, with nothing logged.
\<close>

theorem read_from_file_contract:
  "(open_rd (files w path) = Some ENOENT \<or> open_rd (files w path) = Some EACCES \<longrightarrow>
      modesetting_read_from_file path 0x1000 w = (None, w)) \<and>
   (open_rd (files w path) = Some e \<and> e \<noteq> ENOENT \<and> e \<noteq> EACCES \<longrightarrow>
      modesetting_read_from_file path 0x1000 w = (None, log_msg LOG_WARNING (path @ '': open'') w)) \<and>
   (open_rd (files w path) = None \<and> read_res (files w path) = Inl e \<longrightarrow>
      modesetting_read_from_file path 0x1000 w = (None, log_msg LOG_WARNING (path @ '': read'') w)) \<and>
   (open_rd (files w path) = None \<and> read_res (files w path) = Inr bytes \<longrightarrow>
      modesetting_read_from_file path 0x1000 w = (Some (normalize_spec (take 4096 bytes)), w) \<and>
      length (normalize_spec (take 4096 bytes)) \<le> 4096)"
proof -
  have "length (normalize_spec (take 4096 bytes)) \<le> length (take 4096 bytes)"
    by (rule length_normalize_spec)
  then have "length (normalize_spec (take 4096 bytes)) \<le> 4096" by simp
  then show ?thesis
    by (auto simp: modesetting_read_from_file_def modesetting_strip_spec)
qed


theorem read_from_file_contract_witness:
  "modesetting_read_from_file ''/sys/absent'' 0x1000 (startup (\<lambda>p. no_file))
     = (None, startup (\<lambda>p. no_file)) \<and>
   modesetting_read_from_file ''/sys/idVendor'' 0x1000
       (startup (\<lambda>p. attr_node ('' 0x1D6B  abc'' @ [CHR 0x0A])))
     = (Some ''0x1D6B abc'', startup (\<lambda>p. attr_node ('' 0x1D6B  abc'' @ [CHR 0x0A])))"
proof -
  have n: "normalize_spec (take 4096 ('' 0x1D6B  abc'' @ [CHR 0x0A])) = ''0x1D6B abc''"
    by (simp add: normalize_spec_def cstr_def ltrim_def is_blank_def byte_def)
  have a: "open_rd (files (startup (\<lambda>p. no_file)) ''/sys/absent'') = Some ENOENT"
    by (simp add: startup_def modesetting_init_def no_file_def)
  have b: "open_rd (files (startup (\<lambda>p. attr_node ('' 0x1D6B  abc'' @ [CHR 0x0A]))) ''/sys/idVendor'') = None"
    "read_res (files (startup (\<lambda>p. attr_node ('' 0x1D6B  abc'' @ [CHR 0x0A]))) ''/sys/idVendor'')
       = Inr ('' 0x1D6B  abc'' @ [CHR 0x0A])"
    by (simp_all add: startup_def modesetting_init_def attr_node_def)
  show ?thesis
    using read_from_file_contract [of "startup (\<lambda>p. no_file)" "''/sys/absent''"]
      read_from_file_contract [of "startup (\<lambda>p. attr_node ('' 0x1D6B  abc'' @ [CHR 0x0A]))"
        "''/sys/idVendor''" _ "'' 0x1D6B  abc'' @ [CHR 0x0A]"]
      a b n
    by simp
qed

text \<open>
  The claim as stated fails in three ways. A directory is neither missing nor forbidden: it
  opens, \<^verbatim>\<open>read\<close> fails, and the result is no value and a warning, not the content.
  A zero byte is a control character, but it is not collapsed: it ends the text, so
  \<^verbatim>\<open>a NUL b\<close> reads as \<^verbatim>\<open>a\<close>, not \<^verbatim>\<open>a b\<close>. The delete character (127)
  is a control character too, and it is kept as it is.
\<close>

theorem read_from_file_counterexample:
  "open_rd (files (startup (\<lambda>p. dir_node)) ''/sys/class/android_usb'') = None \<and>
   modesetting_read_from_file ''/sys/class/android_usb'' 0x1000 (startup (\<lambda>p. dir_node))
     = (None, log_msg LOG_WARNING ''/sys/class/android_usb: read'' (startup (\<lambda>p. dir_node))) \<and>
   fst (modesetting_read_from_file ''/sys/attr'' 0x1000
          (startup (\<lambda>p. attr_node [CHR ''a'', CHR 0x00, CHR ''b''])))
     = Some ''a'' \<and>
   normalize_claimed [CHR ''a'', CHR 0x00, CHR ''b''] = ''a b'' \<and>
   fst (modesetting_read_from_file ''/sys/attr'' 0x1000
          (startup (\<lambda>p. attr_node [CHR ''a'', CHR 0x7F, CHR 0x7F, CHR ''b''])))
     = Some [CHR ''a'', CHR 0x7F, CHR 0x7F, CHR ''b''] \<and>
   normalize_claimed [CHR ''a'', CHR 0x7F, CHR 0x7F, CHR ''b''] = ''a b''"
proof -
  have d: "modesetting_read_from_file ''/sys/class/android_usb'' 0x1000 (startup (\<lambda>p. dir_node))
     = (None, log_msg LOG_WARNING ''/sys/class/android_usb: read'' (startup (\<lambda>p. dir_node)))"
    "open_rd (files (startup (\<lambda>p. dir_node)) ''/sys/class/android_usb'') = None"
    by (simp_all add: modesetting_read_from_file_def startup_def modesetting_init_def dir_node_def)
  have n: "fst (modesetting_read_from_file ''/sys/attr'' 0x1000
          (startup (\<lambda>p. attr_node [CHR ''a'', CHR 0x00, CHR ''b''])))
     = Some ''a''"
    by (simp add: modesetting_read_from_file_def startup_def modesetting_init_def attr_node_def
        modesetting_strip_spec normalize_spec_def cstr_def ltrim_def is_blank_def byte_def)
  have e: "fst (modesetting_read_from_file ''/sys/attr'' 0x1000
          (startup (\<lambda>p. attr_node [CHR ''a'', CHR 0x7F, CHR 0x7F, CHR ''b''])))
     = Some [CHR ''a'', CHR 0x7F, CHR 0x7F, CHR ''b'']"
    by (simp add: modesetting_read_from_file_def startup_def modesetting_init_def attr_node_def
        modesetting_strip_spec normalize_spec_def cstr_def ltrim_def is_blank_def byte_def)
  have c1: "normalize_claimed [CHR ''a'', CHR 0x00, CHR ''b''] = ''a b''"
    by (simp add: normalize_claimed_def is_space_or_control_def byte_def)
  have c2: "normalize_claimed [CHR ''a'', CHR 0x7F, CHR 0x7F, CHR ''b''] = ''a b''"
    by (simp add: normalize_claimed_def is_space_or_control_def byte_def)
  from d n e c1 c2 show ?thesis by simp
qed

text \<open>
  C6: the code at a table with two entries, visited in the order \<^verbatim>\<open>/sys/a\<close>,
  \<^verbatim>\<open>/sys/b\<close>, where \<^verbatim>\<open>/sys/a\<close> no longer exists and \<^verbatim>\<open>/sys/b\<close> reads
  \<^verbatim>\<open>y\<close> while \<^verbatim>\<open>x\<close> is expected. The first sweep reports and removes
  \<^verbatim>\<open>/sys/a\<close>; the removal ends the iteration, so \<^verbatim>\<open>/sys/b\<close> is not visited
  and still holds \<^verbatim>\<open>x\<close>. The second sweep, with no change in between, finds the drift
  of \<^verbatim>\<open>/sys/b\<close> and logs it.
\<close>

theorem verify_values_stops_after_removal:
  "trace (modesetting_verify_values two_drifted) =
     [Log LOG_WARNING ''unexpected change /sys/a : 1 -> ???'',
      GCritical ''g_hash_table_iter_next: assertion ri->version == ri->hash_table->version failed''] \<and>
   live two_drifted ''/sys/b'' = Some ''y'' \<and>
   tracked (modesetting_verify_values two_drifted) ''/sys/b'' = Some ''x'' \<and>
   trace (modesetting_verify_values (modesetting_verify_values two_drifted)) =
     trace (modesetting_verify_values two_drifted) @
     [Log LOG_WARNING ''unexpected change /sys/b : x -> y'']"
  by code_simp

text \<open>
  C10. \<^verbatim>\<open>modesetting_write_to_file_real\<close> with a null path or a null text returns
  \<open>-1\<close> and leaves the whole state, the files and the tracker with it, as it was. So the
  android unset routine of a descriptor without \<^verbatim>\<open>sysfs_reset_value\<close> does exactly
  what it does without its write to \<^verbatim>\<open>sysfs_path\<close>.
\<close>

theorem write_null_is_noop:
  "write_to_file E None text w = (- 1, w) \<and>
   write_to_file E path None w = (- 1, w) \<and>
   (sysfs_reset_value data = None \<longrightarrow>
      unset_android E data w =
        (let w1 = snd (write_to_file E (softconnect_path data) (softconnect_disconnect data) w);
             w3 = (if idVendorOverride data \<noteq> None
                   then emit (Ext (Android_set_vendorid (config_get_android_vendor_id E))) w1
                   else w1)
         in snd (write_to_file E (softconnect_path data) (softconnect data) w3)))"
  by (simp add: write_to_file_def unset_android_def split: option.splits)

theorem write_null_is_noop_witness:
  "write_to_file android_env None (Some ''1'') (startup (\<lambda>p. attr_node ''0'')) =
     (- 1, startup (\<lambda>p. attr_node ''0'')) \<and>
   write_to_file android_env (Some ''/sys/class/android_usb/android0/functions'') None
       (startup (\<lambda>p. attr_node ''0'')) =
     (- 1, startup (\<lambda>p. attr_node ''0'')) \<and>
   unset_android android_env (calloc_mode\<lparr>idVendorOverride := Some ''0x0421''\<rparr>)
       (startup (\<lambda>p. attr_node ''0'')) =
     emit (Ext (Android_set_vendorid (Some ''0x1D6B''))) (startup (\<lambda>p. attr_node ''0''))"
  using write_null_is_noop [of android_env "Some ''1''" "startup (\<lambda>p. attr_node ''0'')"
      "Some ''/sys/class/android_usb/android0/functions''"
      "calloc_mode\<lparr>idVendorOverride := Some ''0x0421''\<rparr>"]
  by (simp add: calloc_mode_def android_env_def write_to_file_def)

text \<open>
  C7. \<^verbatim>\<open>modedata_load\<close> returns a descriptor only when the file loads and what it
  read satisfies the descriptor invariants, and then the descriptor is exactly what was
  read; in every other case it returns null and the last thing logged is an error. In
  particular a mode with a network and no interface, a reset value without a sysfs path,
  and a sysfs path without a value are rejected.
\<close>

theorem modedata_load_validates:
  "fst (modedata_load load_from_file connman filename) =
     (case load_from_file filename of
        None \<Rightarrow> None
      | Some kf \<Rightarrow> if descriptor_ok (read_keys connman kf) then Some (read_keys connman kf) else None) \<and>
   (fst (modedata_load load_from_file connman filename) = Some d \<longrightarrow> descriptor_ok d) \<and>
   (fst (modedata_load load_from_file connman filename) = None \<longrightarrow>
      (\<exists>msg. last (snd (modedata_load load_from_file connman filename)) = Log LOG_ERR msg)) \<and>
   (load_from_file filename = Some kf \<and>
    ((get_integer kf MODE_ENTRY MODE_NETWORK_KEY \<noteq> 0 \<and>
        get_string kf MODE_ENTRY MODE_NETWORK_INTERFACE_KEY = None) \<or>
     (get_string kf MODE_OPTIONS_ENTRY MODE_SYSFS_RESET_VALUE \<noteq> None \<and>
        get_string kf MODE_OPTIONS_ENTRY MODE_SYSFS_PATH = None) \<or>
     (get_string kf MODE_OPTIONS_ENTRY MODE_SYSFS_PATH \<noteq> None \<and>
        get_string kf MODE_OPTIONS_ENTRY MODE_SYSFS_VALUE = None)) \<longrightarrow>
      fst (modedata_load load_from_file connman filename) = None)"
proof -
  have eq: "fst (modedata_load load_from_file connman filename) =
     (case load_from_file filename of
        None \<Rightarrow> None
      | Some kf \<Rightarrow> if descriptor_ok (read_keys connman kf) then Some (read_keys connman kf) else None)"
    by (auto simp: modedata_load_def descriptor_ok_def Let_def split: option.splits)
  have ok: "descriptor_ok d" if "fst (modedata_load load_from_file connman filename) = Some d"
    using that unfolding eq by (auto split: option.splits if_splits)
  have err: "\<exists>msg. last (snd (modedata_load load_from_file connman filename)) = Log LOG_ERR msg"
    if "fst (modedata_load load_from_file connman filename) = None"
    using that by (auto simp: modedata_load_def Let_def split: option.splits if_splits)
  have rej: "fst (modedata_load load_from_file connman filename) = None"
    if "load_from_file filename = Some kf"
      and "(get_integer kf MODE_ENTRY MODE_NETWORK_KEY \<noteq> 0 \<and>
              get_string kf MODE_ENTRY MODE_NETWORK_INTERFACE_KEY = None) \<or>
           (get_string kf MODE_OPTIONS_ENTRY MODE_SYSFS_RESET_VALUE \<noteq> None \<and>
              get_string kf MODE_OPTIONS_ENTRY MODE_SYSFS_PATH = None) \<or>
           (get_string kf MODE_OPTIONS_ENTRY MODE_SYSFS_PATH \<noteq> None \<and>
              get_string kf MODE_OPTIONS_ENTRY MODE_SYSFS_VALUE = None)"
  proof -
    have "\<not> descriptor_ok (read_keys connman kf)"
      using that(2) by (auto simp: descriptor_ok_def read_keys_def)
    with that(1) show ?thesis unfolding eq by simp
  qed
  show ?thesis
  proof (intro conjI impI)
    show "fst (modedata_load load_from_file connman filename) =
       (case load_from_file filename of
          None \<Rightarrow> None
        | Some kf \<Rightarrow> if descriptor_ok (read_keys connman kf) then Some (read_keys connman kf) else None)"
      by (rule eq)
  next
    assume "fst (modedata_load load_from_file connman filename) = Some d"
    then show "descriptor_ok d" by (rule ok)
  next
    assume "fst (modedata_load load_from_file connman filename) = None"
    then show "\<exists>msg. last (snd (modedata_load load_from_file connman filename)) = Log LOG_ERR msg"
      by (rule err)
  next
    assume "load_from_file filename = Some kf \<and>
      ((get_integer kf MODE_ENTRY MODE_NETWORK_KEY \<noteq> 0 \<and>
          get_string kf MODE_ENTRY MODE_NETWORK_INTERFACE_KEY = None) \<or>
       (get_string kf MODE_OPTIONS_ENTRY MODE_SYSFS_RESET_VALUE \<noteq> None \<and>
          get_string kf MODE_OPTIONS_ENTRY MODE_SYSFS_PATH = None) \<or>
       (get_string kf MODE_OPTIONS_ENTRY MODE_SYSFS_PATH \<noteq> None \<and>
          get_string kf MODE_OPTIONS_ENTRY MODE_SYSFS_VALUE = None))"
    then show "fst (modedata_load load_from_file connman filename) = None"
      using rej by simp
  qed
qed

theorem modedata_load_validates_witness:
  "fst (modedata_load (\<lambda>f. Some network_without_interface) False ''/etc/usb-moded/dyn-modes/a.ini'') = None \<and>
   fst (modedata_load (\<lambda>f. Some reset_without_path) False ''/etc/usb-moded/dyn-modes/b.ini'') = None \<and>
   fst (modedata_load (\<lambda>f. Some developer_mode_ini) False ''/etc/usb-moded/dyn-modes/c.ini'')
     = Some (read_keys False developer_mode_ini) \<and>
   descriptor_ok (read_keys False developer_mode_ini)"
proof -
  have a: "get_integer network_without_interface MODE_ENTRY MODE_NETWORK_KEY \<noteq> 0 \<and>
           get_string network_without_interface MODE_ENTRY MODE_NETWORK_INTERFACE_KEY = None"
    by (simp add: network_without_interface_def)
  have b: "get_string reset_without_path MODE_OPTIONS_ENTRY MODE_SYSFS_RESET_VALUE \<noteq> None \<and>
           get_string reset_without_path MODE_OPTIONS_ENTRY MODE_SYSFS_PATH = None"
    by (simp add: reset_without_path_def)
  have r1: "fst (modedata_load (\<lambda>f. Some network_without_interface) False
                  ''/etc/usb-moded/dyn-modes/a.ini'') = None"
    using modedata_load_validates [of "\<lambda>f. Some network_without_interface" False
        "''/etc/usb-moded/dyn-modes/a.ini''" calloc_mode network_without_interface,
        THEN conjunct2, THEN conjunct2, THEN conjunct2] a
    by simp
  have r2: "fst (modedata_load (\<lambda>f. Some reset_without_path) False
                  ''/etc/usb-moded/dyn-modes/b.ini'') = None"
    using modedata_load_validates [of "\<lambda>f. Some reset_without_path" False
        "''/etc/usb-moded/dyn-modes/b.ini''" calloc_mode reset_without_path,
        THEN conjunct2, THEN conjunct2, THEN conjunct2] b
    by simp
  have r3: "fst (modedata_load (\<lambda>f. Some developer_mode_ini) False
                  ''/etc/usb-moded/dyn-modes/c.ini'') = Some (read_keys False developer_mode_ini)"
    by (simp add: modedata_load_def Let_def read_keys_def developer_mode_ini_def)
  have r4: "descriptor_ok (read_keys False developer_mode_ini)"
    using modedata_load_validates [of "\<lambda>f. Some developer_mode_ini" False
        "''/etc/usb-moded/dyn-modes/c.ini''" "read_keys False developer_mode_ini" developer_mode_ini,
        THEN conjunct2, THEN conjunct1] r3
    by simp
  from r1 r2 r3 r4 show ?thesis by simp
qed

subsection \<open>Steps that leave the timers alone\<close>

named_theorems steady_intros

lemma steady_refl [simp, steady_intros]: "steady w w"
  by (simp add: steady_def)

lemma steady_trans: "steady w w1 \<Longrightarrow> steady w1 w2 \<Longrightarrow> steady w w2"
  by (auto simp: steady_def)

lemma steady_emit [steady_intros]: "quiet ev \<Longrightarrow> steady w w1 \<Longrightarrow> steady w (emit ev w1)"
  by (auto simp: steady_def emit_def)

lemma steady_log [steady_intros]: "steady w w1 \<Longrightarrow> steady w (log_msg lvl msg w1)"
  by (simp add: log_msg_def steady_emit quiet_def)

lemma steady_track [steady_intros]:
  "steady w w1 \<Longrightarrow> steady w (modesetting_track_value path tx w1)"
  by (auto simp: modesetting_track_value_def steady_def split: option.splits)

lemma steady_read [steady_intros]:
  "steady w w1 \<Longrightarrow> steady w (snd (modesetting_read_from_file p n w1))"
  by (auto simp: modesetting_read_from_file_def split: option.splits sum.splits intro: steady_log)

lemma steady_files_update [steady_intros]:
  "steady w w1 \<Longrightarrow> steady w (w1\<lparr>files := fs\<rparr>)"
  by (simp add: steady_def)

lemma steady_write_loop [steady_intros]:
  "steady w w1 \<Longrightarrow> steady w (snd (write_loop E path clear tx w1))"
proof (induction E path clear tx w1 rule: write_loop.induct)
  case (1 E path clear tx w1)
  show ?case
  proof (cases "0 < length tx")
    case False
    then show ?thesis using "1.prems" by (subst write_loop.simps) simp
  next
    case True
    show ?thesis
    proof (cases "write_res (files w1 path)")
      case (Inl e)
      with True "1.prems" show ?thesis by (subst write_loop.simps) (simp add: steady_log)
    next
      case (Inr k)
      let ?n = "min (Suc k) (length tx)"
      let ?w2 = "emit (WriteCall path (take ?n tx))
                   (w1\<lparr>files := (files w1)(path := store E path (take ?n tx) (files w1 path))\<rparr>)"
      have a: "steady w ?w2"
        using "1.prems" by (intro steady_emit steady_files_update) (simp_all add: quiet_def)
      have b: "steady w (snd (write_loop E path clear (drop ?n tx) ?w2))"
        using True Inr a by (intro "1.IH") auto
      have "write_loop E path clear tx w1 = write_loop E path clear (drop ?n tx) ?w2"
        using True Inr by (subst write_loop.simps) (simp add: Let_def)
      with b show ?thesis by simp
    qed
  qed
qed

lemma steady_write [steady_intros]:
  "steady w w1 \<Longrightarrow> steady w (snd (write_to_file E path tx w1))"
  unfolding write_to_file_def Let_def split_beta
  by (auto split: option.splits intro!: steady_intros)

lemma steady_system [steady_intros]:
  "steady w w1 \<Longrightarrow> steady w (snd (usbmoded_system E cmd w1))"
  by (simp add: usbmoded_system_def steady_emit quiet_def)

lemma steady_report_line [steady_intros]: "steady w w1 \<Longrightarrow> steady w (report_line tx w1)"
  unfolding report_line_def Let_def by (intro steady_intros) (simp_all add: quiet_def)

lemma steady_fold_report [steady_intros]:
  "steady w w1 \<Longrightarrow> steady w (fold report_line ls w1)"
  by (induction ls arbitrary: w1) (auto intro: steady_report_line)

lemma steady_report [steady_intros]:
  "steady w w1 \<Longrightarrow> steady w (modesetting_report_mass_storage_blocker E m t w1)"
  unfolding modesetting_report_mass_storage_blocker_def Let_def
  by (auto split: option.splits simp: quiet_def intro!: steady_intros)

lemma steady_umount_mountpoint [steady_intros]:
  "steady w w1 \<Longrightarrow> steady w (snd (umount_mountpoint E mount mountpath t w1))"
proof (induction E mount mountpath t w1 rule: umount_mountpoint.induct)
  case (1 E mount mountpath t w1)
  define ret where "ret = fst (usbmoded_system E (''mount | grep '' @ mountpath) w1)"
  define w2 where "w2 = snd (usbmoded_system E (''mount | grep '' @ mountpath) w1)"
  define ret2 where "ret2 = fst (usbmoded_system E (''umount '' @ mountpath)
                  (log_msg LOG_DEBUG (''unmount command = umount '' @ mountpath) w2))"
  define w3 where "w3 = snd (usbmoded_system E (''umount '' @ mountpath)
                  (log_msg LOG_DEBUG (''unmount command = umount '' @ mountpath) w2))"
  define w4 where "w4 = modesetting_report_mass_storage_blocker E mount 1
                        (log_msg LOG_ERR ''Umount failed. Retrying'' (emit (Sleep 1) w3))"
  have s2: "steady w w2" unfolding w2_def using "1.prems" by (intro steady_intros)
  have s3: "steady w w3" unfolding w3_def using s2 by (intro steady_intros)
  have s4: "steady w w4" unfolding w4_def using s3 by (intro steady_intros) (simp_all add: quiet_def)
  have unfold: "umount_mountpoint E mount mountpath t w1 =
      (if ret = 0 then
         if ret2 \<noteq> 0 then
           if t \<noteq> 3 then umount_mountpoint E mount mountpath (t + 1) w4
           else (Inl ret2,
                 emit (ErrorSignal UMOUNT_ERROR)
                   (modesetting_report_mass_storage_blocker E mount 2
                      (log_msg LOG_ERR (''Unmounting '' @ mount @ '' failed'') w3)))
         else (Inr t, w3)
       else (Inr t, w2))"
    unfolding ret_def w2_def ret2_def w3_def w4_def
    by (subst umount_mountpoint.simps) (simp only: split_beta)
  show ?case
  proof (cases "ret = 0 \<and> ret2 \<noteq> 0 \<and> t \<noteq> 3")
    case True
    have p1: "(ret, w2) = usbmoded_system E (''mount | grep '' @ mountpath) w1"
      by (simp add: ret_def w2_def)
    have p2: "(ret2, w3) = usbmoded_system E (''umount '' @ mountpath)
              (log_msg LOG_DEBUG (''unmount command = umount '' @ mountpath) w2)"
      by (simp add: ret2_def w3_def)
    have "steady w (snd (umount_mountpoint E mount mountpath (t + 1) w4))"
      unfolding w4_def
      using p1 _ p2 _ _ s4 [unfolded w4_def]
    proof (rule "1.IH")
      show "ret = 0" using True by simp
      show "ret2 \<noteq> 0" using True by simp
      show "t \<noteq> 3" using True by simp
    qed
    then show ?thesis using True by (simp add: unfold)
  next
    case False
    have e: "steady w (emit (ErrorSignal UMOUNT_ERROR)
                   (modesetting_report_mass_storage_blocker E mount 2
                      (log_msg LOG_ERR (''Unmounting '' @ mount @ '' failed'') w3)))"
      using s3 by (intro steady_intros) (simp_all add: quiet_def)
    from False s2 s3 e show ?thesis by (auto simp: unfold)
  qed
qed

lemma steady_umount_all [steady_intros]:
  "steady w w1 \<Longrightarrow> steady w (snd (umount_all E mount ms ret t w1))"
proof (induction ms arbitrary: ret t w1)
  case Nil
  then show ?case by simp
next
  case (Cons m ms)
  define mountpath where "mountpath = (case realpath E m of Some real_path \<Rightarrow> real_path | None \<Rightarrow> m)"
  obtain r w2 where u: "umount_mountpoint E mount mountpath t w1 = (r, w2)"
    by (cases "umount_mountpoint E mount mountpath t w1")
  have s: "steady w w2"
    using steady_umount_mountpoint [OF Cons.prems, of E mount mountpath t] u by simp
  show ?case
  proof (cases r)
    case (Inl a)
    with u s show ?thesis by (simp add: mountpath_def Let_def)
  next
    case (Inr t1)
    with u Cons.IH [OF s, of 0 t1] show ?thesis by (simp add: mountpath_def Let_def)
  qed
qed

lemma steady_reload_module [steady_intros]:
  "steady w w1 \<Longrightarrow> steady w (snd (reload_module E data n ret w1))"
  unfolding reload_module_def Let_def split_beta
  by (auto simp: quiet_def intro!: steady_intros)

lemma steady_activate_luns [steady_intros]:
  "steady w w1 \<Longrightarrow> steady w (activate_luns E data fua mount ms i w1)"
proof (induction ms arbitrary: i w1)
  case Nil
  then show ?case by simp
next
  case (Cons m ms)
  show ?case
    unfolding activate_luns.simps Let_def
    by (rule Cons.IH) (auto intro!: steady_intros Cons.prems)
qed

lemma steady_unset_mounts [steady_intros]:
  "steady w w1 \<Longrightarrow> steady w (snd (unset_mounts E data ms i mount ret w1))"
proof (induction ms arbitrary: i mount ret w1)
  case Nil
  then show ?case by simp
next
  case (Cons m ms)
  show ?case
    unfolding unset_mounts.simps Let_def split_beta
    by (rule Cons.IH)
       (auto split: option.splits simp: quiet_def split_beta intro!: steady_intros Cons.prems)
qed

lemma steady_unset_mass_storage [steady_intros]:
  "steady w w1 \<Longrightarrow> steady w (snd (modesetting_unset_mass_storage_mode E data w1))"
  unfolding modesetting_unset_mass_storage_mode_def
  by (auto split: option.splits intro!: steady_intros)

lemma steady_set_configfs [steady_intros]:
  "steady w w1 \<Longrightarrow> steady w (snd (set_configfs E data w1))"
  unfolding set_configfs_def Let_def
  by (auto simp: quiet_def intro!: steady_intros)

lemma steady_set_android [steady_intros]:
  "steady w w1 \<Longrightarrow> steady w (snd (set_android E data ret w1))"
  unfolding set_android_def Let_def split_beta
  by (auto simp: quiet_def intro!: steady_intros)

lemma steady_set_backend [steady_intros]:
  "steady w w1 \<Longrightarrow> steady w (snd (set_backend E data w1))"
  unfolding set_backend_def
  by (auto intro!: steady_intros)

lemma steady_set_network [steady_intros]:
  "steady w w1 \<Longrightarrow> steady w (snd (set_network E data w1))"
  unfolding set_network_def Let_def
  by (auto simp: quiet_def intro!: steady_intros)

lemma steady_unset_android [steady_intros]:
  "steady w w1 \<Longrightarrow> steady w (unset_android E data w1)"
  unfolding unset_android_def Let_def
  by (auto simp: quiet_def intro!: steady_intros)

lemma steady_verify_entry [steady_intros]:
  "steady w w1 \<Longrightarrow> steady w (verify_entry kv w1)"
  unfolding verify_entry_def split_beta
  by (auto intro!: steady_intros)

lemma steady_verify_entries [steady_intros]:
  "steady w w1 \<Longrightarrow> steady w (verify_entries kvs w1)"
  by (induction kvs arbitrary: w1)
     (auto simp: Let_def quiet_def intro: steady_verify_entry steady_emit)

lemma steady_verify_values [steady_intros]:
  "steady w w1 \<Longrightarrow> steady w (modesetting_verify_values w1)"
  unfolding modesetting_verify_values_def
  by (auto split: option.splits intro!: steady_intros)

subsection \<open>The delayed network retry timer\<close>

lemma steady_timer_inv: "steady w w1 \<Longrightarrow> timer_inv w1 = timer_inv w"
  by (simp add: steady_def timer_inv_def)

lemma steady_sources: "steady w w1 \<Longrightarrow> sources w1 = sources w"
  by (simp add: steady_def)

lemma steady_delayed: "steady w w1 \<Longrightarrow> delayed_network w1 = delayed_network w"
  by (simp add: steady_def)

lemma emit_timer_inv [simp]: "timer_inv (emit ev w) = timer_inv w"
  by (simp add: timer_inv_def emit_def)

lemma emit_sources [simp]: "sources (emit ev w) = sources w"
  by (simp add: emit_def)

lemma emit_delayed [simp]: "delayed_network (emit ev w) = delayed_network w"
  by (simp add: emit_def)

lemma timer_inv_startup: "timer_inv (startup fs)"
  by (simp add: timer_inv_def startup_def modesetting_init_def)

lemma cancel_clears:
  "timer_inv w \<Longrightarrow>
     sources (cancel_delayed_network w) = [] \<and> delayed_network (cancel_delayed_network w) = 0 \<and>
     timer_inv (cancel_delayed_network w)"
  by (cases "sources w")
     (auto simp: timer_inv_def cancel_delayed_network_def g_source_remove_def split: if_splits)

lemma schedule_supersedes:
  assumes "timer_inv w" and "network data \<noteq> 0" and "r \<noteq> 0"
  shows "sources (schedule_network_retry data r w) = [(Suc (last_source w), data)]"
    and "delayed_network (schedule_network_retry data r w) = Suc (last_source w)"
    and "last_source (schedule_network_retry data r w) = Suc (last_source w)"
  using assms
  by (cases "sources w";
      auto simp: timer_inv_def schedule_network_retry_def g_source_remove_def
        g_timeout_add_seconds_def log_msg_def emit_def Let_def split: if_splits)+

lemma schedule_timer_inv: "timer_inv w \<Longrightarrow> timer_inv (schedule_network_retry data r w)"
proof (cases "r \<noteq> 0 \<and> network data \<noteq> 0")
  case True
  assume "timer_inv w"
  with True schedule_supersedes [of w data r] show ?thesis by (simp add: timer_inv_def)
next
  case False
  assume "timer_inv w"
  with False show ?thesis by (auto simp: schedule_network_retry_def)
qed

lemma timer_fires_inv: "timer_inv w \<Longrightarrow> timer_inv (timer_fires sid w)"
proof -
  assume inv: "timer_inv w"
  show ?thesis
  proof (cases "map_of (sources w) sid")
    case None
    with inv show ?thesis by (simp add: timer_fires_def)
  next
    case (Some data)
    then have "sid \<in> fst ` set (sources w)" by (auto dest: map_of_SomeD intro: rev_image_eqI)
    then have "sid \<in> set (map fst (sources w))" by simp
    with inv have d: "delayed_network w = sid" "map fst (sources w) = [sid]"
      by (auto simp: timer_inv_def split: if_splits)
    then obtain dd where "sources w = [(sid, dd)]" by (cases "sources w") auto
    with Some show ?thesis
      by (simp add: timer_fires_def modesetting_network_retry_def g_source_remove_def
          timer_inv_def emit_def)
  qed
qed

lemma set_mass_storage_timers:
  "sources (snd (modesetting_set_mass_storage_mode E data w)) = sources w \<and>
   delayed_network (snd (modesetting_set_mass_storage_mode E data w)) = delayed_network w \<and>
   last_source (snd (modesetting_set_mass_storage_mode E data w)) = last_source w"
proof -
  define w0 where "w0 = emit (StateSignal USB_PRE_UNMOUNT) w"
  have s0: "steady w w0" unfolding w0_def by (intro steady_intros) (simp add: quiet_def)
  show ?thesis
  proof (cases "config_find_mounts E")
    case None
    then show ?thesis
      by (simp add: modesetting_set_mass_storage_mode_def Let_def emit_def)
  next
    case (Some mount)
    define mounts where "mounts = g_strsplit mount CHR '',''"
    obtain b1 r1 w1 where m: "reload_module E data (int (length mounts)) 0 w0 = ((b1, r1), w1)"
      by (cases "reload_module E data (int (length mounts)) 0 w0") auto
    have s1: "steady w w1"
      using steady_reload_module [OF s0, of E data "int (length mounts)" 0] m by simp
    obtain b2 r2 w2 where u: "umount_all E mount mounts r1 0 w1 = ((b2, r2), w2)"
      by (cases "umount_all E mount mounts r1 0 w1") auto
    have s2: "steady w w2"
      using steady_umount_all [OF s1, of E mount mounts r1 0] u by simp
    define w3 where "w3 = activate_luns E data (config_find_sync E) mount mounts 0 (emit (Sleep 1) w2)"
    have s3: "steady w w3"
      unfolding w3_def using s2 by (intro steady_intros) (simp_all add: quiet_def)
    have "snd (modesetting_set_mass_storage_mode E data w) =
            (if b1 then w1 else if b2 then w2
             else if r2 = 0 then emit (StateSignal DATA_IN_USE) w3 else w3)"
      using Some m u
      by (simp add: modesetting_set_mass_storage_mode_def Let_def mounts_def w0_def w3_def)
    with s1 s2 s3 show ?thesis by (auto simp: steady_def emit_def)
  qed
qed

lemma set_mass_storage_timer_inv:
  "timer_inv (snd (modesetting_set_mass_storage_mode E data w)) = timer_inv w"
  using set_mass_storage_timers [of E data w] by (simp add: timer_inv_def)

lemma set_dynamic_mode_timer_inv:
  assumes "timer_inv w"
  shows "timer_inv (snd (modesetting_set_dynamic_mode E d w))"
proof (cases d)
  case None
  with assms show ?thesis by (simp add: modesetting_set_dynamic_mode_def)
next
  case (Some data)
  show ?thesis
  proof (cases "mass_storage data \<noteq> 0")
    case True
    with Some assms show ?thesis
      by (simp add: modesetting_set_dynamic_mode_def set_mass_storage_timer_inv)
  next
    case False
    note nms = False
    show ?thesis
    proof (cases "APP_SYNC (macros E) \<and> appsync data \<noteq> 0 \<and>
                  appsync_activate_sync_rc E (trace w) (mode_name data) \<noteq> 0")
      case True
      with Some nms assms show ?thesis
        by (simp add: modesetting_set_dynamic_mode_def log_msg_def)
    next
      case False
      define w0 where "w0 = (if APP_SYNC (macros E) \<and> appsync data \<noteq> 0
                       then emit (Ext (Appsync_activate_sync (mode_name data))) w else w)"
      define ret where "ret = fst (set_backend E data w0)"
      define w1 where "w1 = snd (set_backend E data w0)"
      define nr where "nr = fst (set_network E data w1)"
      define w2 where "w2 = snd (set_network E data w1)"
      define w3 where "w3 = schedule_network_retry data nr w2"
      define w4 where "w4 = (if nat_flag data \<noteq> 0 \<or> dhcp_server data \<noteq> 0
                       then emit (Ext (Network_set_up_dhcpd data)) w3 else w3)"
      define w5 where "w5 = (if appsync data \<noteq> 0 \<and> ret = 0
                       then emit (Ext (Appsync_activate_sync_post (mode_name data)))
                              (emit (MSleep 350) w4)
                       else w4)"
      define w6 where "w6 = (if CONNMAN (macros E) \<and> connman_tethering data \<noteq> None
                       then emit (Ext (Connman_set_tethering (connman_tethering data) True)) w5
                       else w5)"
      have i0: "timer_inv w0" using assms by (simp add: w0_def)
      have "steady w0 w1" unfolding w1_def by (intro steady_intros)
      then have i1: "timer_inv w1" using i0 by (simp add: steady_timer_inv)
      have "steady w1 w2" unfolding w2_def by (intro steady_intros)
      then have i2: "timer_inv w2" using i1 by (simp add: steady_timer_inv)
      have i3: "timer_inv w3" unfolding w3_def using i2 by (rule schedule_timer_inv)
      have i6: "timer_inv w6" using i3 by (simp add: w6_def w5_def w4_def)
      have "modesetting_set_dynamic_mode E d w =
              (ret, if ret \<noteq> 0 then emit (ErrorSignal MODE_SETTING_FAILED) w6 else w6)"
        unfolding modesetting_set_dynamic_mode_def Let_def split_beta
          w0_def ret_def w1_def nr_def w2_def w3_def w4_def w5_def w6_def
        by (simp only: Some option.case nms False if_False)
      then have "snd (modesetting_set_dynamic_mode E d w) =
              (if ret \<noteq> 0 then emit (ErrorSignal MODE_SETTING_FAILED) w6 else w6)"
        by simp
      with i6 show ?thesis by simp
    qed
  qed
qed

lemma unset_dynamic_mode_cancels:
  assumes "timer_inv w"
  shows "sources (modesetting_unset_dynamic_mode E d w) = [] \<and>
         delayed_network (modesetting_unset_dynamic_mode E d w) = 0 \<and>
         timer_inv (modesetting_unset_dynamic_mode E d w)"
proof -
  define w0 where "w0 = cancel_delayed_network w"
  have c: "sources w0 = []" "delayed_network w0 = 0" "timer_inv w0"
    using cancel_clears [OF assms] by (simp_all add: w0_def)
  have "steady w0 (modesetting_unset_dynamic_mode E d w)"
    unfolding modesetting_unset_dynamic_mode_def Let_def w0_def [symmetric]
    by (auto split: option.splits simp: quiet_def intro!: steady_intros)
  with c show ?thesis by (simp add: steady_def timer_inv_def)
qed

lemma cleanup_timer_inv:
  assumes "timer_inv w"
  shows "timer_inv (snd (modesetting_cleanup E m u d w))"
proof -
  define w0 where "w0 = log_msg LOG_DEBUG ''Cleaning up mode'' w"
  define w1 where "w1 = (if APP_SYNC (macros E) then emit (Ext (Appsync_stop False)) w0 else w0)"
  have i1: "timer_inv w1" "timer_inv w0" using assms by (simp_all add: w1_def w0_def log_msg_def)
  have a: "timer_inv (log_msg LOG_WARNING ''No module found to unload. Skipping cleanup'' w0)"
    using i1 by (simp add: log_msg_def)
  have b: "timer_inv (snd (modesetting_unset_mass_storage_mode E None w1))"
    using steady_unset_mass_storage [OF steady_refl, of w1 E None] i1
    by (simp add: steady_timer_inv)
  have c: "timer_inv (modesetting_unset_dynamic_mode E d w1)"
    using unset_dynamic_mode_cancels [OF i1(1)] by simp
  show ?thesis
    unfolding modesetting_cleanup_def Let_def w0_def [symmetric] w1_def [symmetric]
    using a b c i1 by (auto split: option.splits)
qed

lemma step_timer_inv: "timer_inv w \<Longrightarrow> timer_inv (step E oper w)"
proof (cases oper)
  case (Activate d)
  assume "timer_inv w"
  with Activate show ?thesis by (simp add: set_dynamic_mode_timer_inv)
next
  case (Deactivate d)
  assume "timer_inv w"
  with Deactivate show ?thesis by (simp add: unset_dynamic_mode_cancels)
next
  case (Cleanup m u d)
  assume "timer_inv w"
  with Cleanup show ?thesis by (simp add: cleanup_timer_inv)
next
  case (TimerFires sid)
  assume "timer_inv w"
  with TimerFires show ?thesis by (simp add: timer_fires_inv)
next
  case VerifyValues
  assume "timer_inv w"
  with VerifyValues steady_verify_values [OF steady_refl, of w] show ?thesis
    by (simp add: steady_timer_inv)
qed

lemma run_timer_inv: "timer_inv w \<Longrightarrow> timer_inv (run E opers w)"
  by (induction opers arbitrary: w) (auto intro: step_timer_inv)

lemma timer_inv_at_most_one: "timer_inv w \<Longrightarrow> length (sources w) \<le> 1"
proof -
  assume "timer_inv w"
  then have "length (map fst (sources w)) \<le> 1" by (simp add: timer_inv_def)
  then show ?thesis by simp
qed

text \<open>
  C5. In every state reached from start-up by any sequence of activations, deactivations,
  clean-ups, timer expiries and verifications, the pending timeout sources are exactly the
  one \<^verbatim>\<open>delayed_network\<close> names, so there is at most one. Scheduling a retry there
  leaves exactly the new source pending (an outstanding one is removed first), also when
  two are scheduled in a row, and deactivation leaves none.
\<close>

theorem at_most_one_network_retry:
  "timer_inv (run E opers (startup fs)) \<and>
   length (sources (run E opers (startup fs))) \<le> 1 \<and>
   sources (modesetting_unset_dynamic_mode E d (run E opers (startup fs))) = [] \<and>
   (network data \<noteq> 0 \<and> r \<noteq> 0 \<longrightarrow>
      sources (schedule_network_retry data r (run E opers (startup fs)))
        = [(Suc (last_source (run E opers (startup fs))), data)]) \<and>
   (network data \<noteq> 0 \<and> r \<noteq> 0 \<and> network data2 \<noteq> 0 \<and> r2 \<noteq> 0 \<longrightarrow>
      sources (schedule_network_retry data2 r2
                 (schedule_network_retry data r (run E opers (startup fs))))
        = [(Suc (Suc (last_source (run E opers (startup fs)))), data2)])"
proof -
  let ?w = "run E opers (startup fs)"
  have inv: "timer_inv ?w" using timer_inv_startup by (rule run_timer_inv)
  have one: "length (sources ?w) \<le> 1" using inv by (rule timer_inv_at_most_one)
  have un: "sources (modesetting_unset_dynamic_mode E d ?w) = []"
    using unset_dynamic_mode_cancels [OF inv] by simp
  have s1: "sources (schedule_network_retry data r ?w) = [(Suc (last_source ?w), data)]"
    if "network data \<noteq> 0" "r \<noteq> 0"
    using schedule_supersedes(1) [OF inv that] .
  have s2: "sources (schedule_network_retry data2 r2 (schedule_network_retry data r ?w))
              = [(Suc (Suc (last_source ?w)), data2)]"
    if a: "network data \<noteq> 0" "r \<noteq> 0" and b: "network data2 \<noteq> 0" "r2 \<noteq> 0"
  proof -
    have "timer_inv (schedule_network_retry data r ?w)" using inv by (rule schedule_timer_inv)
    from schedule_supersedes(1) [OF this b] schedule_supersedes(3) [OF inv a]
    show ?thesis by simp
  qed
  from inv one un s1 s2 show ?thesis by simp
qed
theorem at_most_one_network_retry_witness:
  "sources (run net_down_env [Activate (Some net_mode), Activate (Some net_mode)]
             (startup (\<lambda>p. no_file))) = [(2, net_mode)] \<and>
   length (sources (run net_down_env [Activate (Some net_mode), Activate (Some net_mode)]
             (startup (\<lambda>p. no_file)))) \<le> 1 \<and>
   sources (modesetting_unset_dynamic_mode net_down_env (Some net_mode)
             (run net_down_env [Activate (Some net_mode), Activate (Some net_mode)]
                (startup (\<lambda>p. no_file)))) = []"
proof -
  have n: "network net_mode \<noteq> 0" "mass_storage net_mode = 0" "appsync net_mode = 0"
    "nat_flag net_mode = 0" "dhcp_server net_mode = 0" "connman_tethering net_mode = None"
    by (simp_all add: net_mode_def calloc_mode_def)
  have e: "APP_SYNC (macros net_down_env)" "\<not> DEBIAN (macros net_down_env)"
    "\<not> CONNMAN (macros net_down_env)" "network_up_rc net_down_env tr d = 1" for tr d
    by (simp_all add: net_down_env_def android_env_def example_macros_def)
  have act: "snd (modesetting_set_dynamic_mode net_down_env (Some net_mode) w) =
      emit (ErrorSignal MODE_SETTING_FAILED)
        (schedule_network_retry net_mode 1
           (emit (Ext (Network_up net_mode)) (emit (Ext (Network_down net_mode))
              (emit (Ext (Android_set_vendorid None)) (emit (Ext (Android_set_productid None)) w)))))"
    for w
    by (simp add: modesetting_set_dynamic_mode_def n e set_network_def Let_def
        set_backend_def set_android_def net_down_env_def android_env_def example_macros_def
        net_mode_def calloc_mode_def write_to_file_def)
  have s: "sources (run net_down_env [Activate (Some net_mode), Activate (Some net_mode)]
             (startup (\<lambda>p. no_file))) = [(2, net_mode)]"
    by (simp add: act n schedule_network_retry_def g_timeout_add_seconds_def g_source_remove_def
        log_msg_def emit_def Let_def startup_def modesetting_init_def)
  from s at_most_one_network_retry [of net_down_env
      "[Activate (Some net_mode), Activate (Some net_mode)]" "\<lambda>p. no_file" "Some net_mode"]
  show ?thesis by simp
qed

subsection \<open>What a write leaves alone\<close>

lemma untouched_refl [simp]: "untouched p w w"
  by (simp add: untouched_def)

lemma untouched_emit: "untouched p w w1 \<Longrightarrow> untouched p w (emit ev w1)"
  by (simp add: untouched_def emit_def tracked_def)

lemma untouched_log: "untouched p w w1 \<Longrightarrow> untouched p w (log_msg lvl msg w1)"
  by (simp add: log_msg_def untouched_emit)

lemma untouched_read:
  "untouched p w w1 \<Longrightarrow> untouched p w (snd (modesetting_read_from_file q n w1))"
  by (auto simp: modesetting_read_from_file_def split: option.splits sum.splits intro: untouched_log)

lemma untouched_track:
  "q \<noteq> p \<Longrightarrow> untouched p w w1 \<Longrightarrow> untouched p w (modesetting_track_value (Some q) tx w1)"
  by (auto simp: untouched_def tracked_def modesetting_track_value_def split: option.splits)

lemma untouched_write_loop:
  "q \<noteq> p \<Longrightarrow> untouched p w w1 \<Longrightarrow> untouched p w (snd (write_loop E q clear tx w1))"
proof (induction E q clear tx w1 rule: write_loop.induct)
  case (1 E q clear tx w1)
  show ?case
  proof (cases "0 < length tx")
    case False
    then show ?thesis using "1.prems" by (subst write_loop.simps) simp
  next
    case True
    show ?thesis
    proof (cases "write_res (files w1 q)")
      case (Inl e)
      with True "1.prems" show ?thesis by (subst write_loop.simps) (simp add: untouched_log)
    next
      case (Inr k)
      let ?n = "min (Suc k) (length tx)"
      let ?w2 = "emit (WriteCall q (take ?n tx))
                   (w1\<lparr>files := (files w1)(q := store E q (take ?n tx) (files w1 q))\<rparr>)"
      have a: "untouched p w ?w2"
        using "1.prems" by (simp add: untouched_def emit_def tracked_def)
      have b: "untouched p w (snd (write_loop E q clear (drop ?n tx) ?w2))"
        using True Inr a "1.prems"(1) by (intro "1.IH") auto
      have "write_loop E q clear tx w1 = write_loop E q clear (drop ?n tx) ?w2"
        using True Inr by (subst write_loop.simps) (simp add: Let_def)
      with b show ?thesis by simp
    qed
  qed
qed

lemma write_to_file_null_text: "write_to_file E path None w = (- 1, w)"
  by (simp add: write_to_file_def)

lemma untouched_write:
  "path \<noteq> Some p \<Longrightarrow> untouched p w w1 \<Longrightarrow> untouched p w (snd (write_to_file E path tx w1))"
  unfolding write_to_file_def Let_def split_beta
  by (auto split: option.splits
      intro!: untouched_log untouched_write_loop untouched_track untouched_read)

text \<open>
  C3, as amended. The android unset routine writes the disconnect value to the soft-connect
  path, then writes \<^verbatim>\<open>sysfs_reset_value\<close> to \<^verbatim>\<open>sysfs_path\<close> when a reset value
  is configured and nothing otherwise, then restores the default vendor id when the
  descriptor overrides it, then writes the connect value to the soft-connect path. Without
  a reset value, every file other than the soft-connect attribute, \<^verbatim>\<open>sysfs_path\<close>
  among them, and what the tracker expects of it, stay as they were. This is the routine
  \<^verbatim>\<open>modesetting_unset_dynamic_mode\<close> runs for the android backend, after cancelling
  the retry timer, switching tethering off and bringing the network down.
\<close>

theorem unset_android_contract:
  "unset_android E data w =
     (let w1 = snd (write_to_file E (softconnect_path data) (softconnect_disconnect data) w);
          w2 = (case sysfs_reset_value data of
                  Some v \<Rightarrow> snd (write_to_file E (sysfs_path data) (Some v) w1)
                | None \<Rightarrow> w1);
          w3 = (if idVendorOverride data \<noteq> None
                then emit (Ext (Android_set_vendorid (config_get_android_vendor_id E))) w2
                else w2)
      in snd (write_to_file E (softconnect_path data) (softconnect data) w3)) \<and>
   (sysfs_reset_value data = None \<and> softconnect_path data \<noteq> Some p \<longrightarrow>
      files (unset_android E data w) p = files w p \<and>
      tracked (unset_android E data w) p = tracked w p) \<and>
   (\<not> configfs_in_use E \<and> android_in_use E \<and>
    mode_name data \<noteq> Some (MODE_MASS_STORAGE (macros E)) \<longrightarrow>
      modesetting_unset_dynamic_mode E (Some data) w =
        unset_android E data
          (let w0 = cancel_delayed_network w;
               w1 = (if CONNMAN (macros E) \<and> connman_tethering data \<noteq> None
                     then emit (Ext (Connman_set_tethering (connman_tethering data) False)) w0
                     else w0)
           in if network data \<noteq> 0 then emit (Ext (Network_down data)) w1 else w1))"
proof (intro conjI impI)
  show "unset_android E data w =
     (let w1 = snd (write_to_file E (softconnect_path data) (softconnect_disconnect data) w);
          w2 = (case sysfs_reset_value data of
                  Some v \<Rightarrow> snd (write_to_file E (sysfs_path data) (Some v) w1)
                | None \<Rightarrow> w1);
          w3 = (if idVendorOverride data \<noteq> None
                then emit (Ext (Android_set_vendorid (config_get_android_vendor_id E))) w2
                else w2)
      in snd (write_to_file E (softconnect_path data) (softconnect data) w3))"
    by (cases "sysfs_reset_value data") (simp_all add: unset_android_def write_to_file_def)
next
  assume a: "sysfs_reset_value data = None \<and> softconnect_path data \<noteq> Some p"
  have "untouched p w (unset_android E data w)"
    unfolding unset_android_def Let_def
    using a by (auto simp: write_to_file_null_text intro!: untouched_write untouched_emit)
  then show "files (unset_android E data w) p = files w p"
    and "tracked (unset_android E data w) p = tracked w p"
    by (simp_all add: untouched_def)
next
  assume "\<not> configfs_in_use E \<and> android_in_use E \<and>
          mode_name data \<noteq> Some (MODE_MASS_STORAGE (macros E))"
  then show "modesetting_unset_dynamic_mode E (Some data) w =
        unset_android E data
          (let w0 = cancel_delayed_network w;
               w1 = (if CONNMAN (macros E) \<and> connman_tethering data \<noteq> None
                     then emit (Ext (Connman_set_tethering (connman_tethering data) False)) w0
                     else w0)
           in if network data \<noteq> 0 then emit (Ext (Network_down data)) w1 else w1)"
    by (simp add: modesetting_unset_dynamic_mode_def Let_def)
qed

theorem unset_android_contract_witness:
  "files (unset_android android_env mtp_mode (startup (\<lambda>p. attr_node ''mtp'')))
       ''/sys/class/android_usb/android0/functions''
     = attr_node ''mtp'' \<and>
   modesetting_unset_dynamic_mode android_env (Some mtp_mode) (startup (\<lambda>p. attr_node ''mtp''))
     = unset_android android_env mtp_mode (startup (\<lambda>p. attr_node ''mtp''))"
proof -
  have a: "sysfs_reset_value mtp_mode = None \<and>
           softconnect_path mtp_mode \<noteq> Some ''/sys/class/android_usb/android0/functions''"
    by (simp add: mtp_mode_def calloc_mode_def)
  have b: "\<not> configfs_in_use android_env \<and> android_in_use android_env \<and>
           mode_name mtp_mode \<noteq> Some (MODE_MASS_STORAGE (macros android_env))"
    by (simp add: android_env_def example_macros_def mtp_mode_def calloc_mode_def)
  have c: "network mtp_mode = 0" "connman_tethering mtp_mode = None"
    by (simp_all add: mtp_mode_def calloc_mode_def)
  have d: "cancel_delayed_network (startup (\<lambda>p. attr_node ''mtp'')) = startup (\<lambda>p. attr_node ''mtp'')"
    by (simp add: cancel_delayed_network_def startup_def modesetting_init_def)
  have e: "files (startup (\<lambda>p. attr_node ''mtp'')) ''/sys/class/android_usb/android0/functions''
             = attr_node ''mtp''"
    by (simp add: startup_def modesetting_init_def)
  show ?thesis
    using unset_android_contract [of android_env mtp_mode "startup (\<lambda>p. attr_node ''mtp'')"
        "''/sys/class/android_usb/android0/functions''", THEN conjunct2] a b c d e
    by (simp add: Let_def)
qed

text \<open>
  The claim as stated fails where no reset value is configured: the attribute read
  \<^verbatim>\<open>none\<close> before the mode was set, the activation wrote \<^verbatim>\<open>mtp\<close>, and after
  the deactivation it still reads \<^verbatim>\<open>mtp\<close>; the deactivation wrote to the soft-connect
  attribute only.
\<close>

theorem unset_android_counterexample:
  "read_res (files (startup (\<lambda>p. attr_node ''none'')) ''/sys/class/android_usb/android0/functions'')
     = Inr ''none'' \<and>
   read_res (files (run android_env [Activate (Some mtp_mode)] (startup (\<lambda>p. attr_node ''none'')))
               ''/sys/class/android_usb/android0/functions'')
     = Inr ''mtp'' \<and>
   read_res (files (run android_env [Activate (Some mtp_mode), Deactivate (Some mtp_mode)]
                      (startup (\<lambda>p. attr_node ''none'')))
               ''/sys/class/android_usb/android0/functions'')
     = Inr ''mtp'' \<and>
   drop 7 (trace (run android_env [Activate (Some mtp_mode), Deactivate (Some mtp_mode)]
                    (startup (\<lambda>p. attr_node ''none''))))
     = [Log LOG_DEBUG ''WRITE /sys/class/android_usb/android0/enable : 0 --> 0'',
        WriteCall ''/sys/class/android_usb/android0/enable'' ''0'',
        Log LOG_DEBUG ''WRITE /sys/class/android_usb/android0/enable : 0 --> 1'',
        WriteCall ''/sys/class/android_usb/android0/enable'' ''1'']"
  by code_simp

subsection \<open>The android set routine\<close>

lemma set_android_without_extra_value:
  "android_extra_sysfs_value data = None \<Longrightarrow> fst (set_android E data 1 w) = 1"
  by (simp add: set_android_def Let_def split_beta)

text \<open>
  C1: what the set routine returns in the android strategy. For a mode that is not a mass
  storage mode and needs no application sync, \<^verbatim>\<open>modesetting_set_dynamic_mode\<close> returns
  the \<^verbatim>\<open>ret\<close> of the android branch, in which the result of the write to
  \<^verbatim>\<open>sysfs_path\<close> is dropped. \<^verbatim>\<open>ret\<close> starts at 1 and only the write of the first extra
  attribute, and after it the soft-connect write, assign it: a descriptor without
  \<^verbatim>\<open>android_extra_sysfs_value\<close> makes the routine return 1 and signal the failure as
  its last action, whatever the primary write did.
\<close>

theorem set_android_result_not_from_primary_write:
  assumes "mass_storage data = 0" and "appsync data = 0"
    and "\<not> configfs_in_use E" and "android_in_use E"
  shows "fst (modesetting_set_dynamic_mode E (Some data) w) = fst (set_android E data 1 w) \<and>
         (android_extra_sysfs_value data = None \<longrightarrow>
            fst (modesetting_set_dynamic_mode E (Some data) w) = 1 \<and>
            last (trace (snd (modesetting_set_dynamic_mode E (Some data) w))) =
              ErrorSignal MODE_SETTING_FAILED)"
proof -
  have r: "fst (modesetting_set_dynamic_mode E (Some data) w) = fst (set_android E data 1 w)"
    using assms
    by (simp add: modesetting_set_dynamic_mode_def set_backend_def Let_def split_beta)
  have l: "last (trace (snd (modesetting_set_dynamic_mode E (Some data) w))) =
             ErrorSignal MODE_SETTING_FAILED"
    if "fst (set_android E data 1 w) = 1"
    using assms that
    by (simp add: modesetting_set_dynamic_mode_def set_backend_def Let_def split_beta emit_def)
  show ?thesis
    using r l set_android_without_extra_value [of data E w] by simp
qed

text \<open>
  The code at two inputs. For the MTP mode, which configures no extra attribute, every
  write succeeds, the primary write to \<^verbatim>\<open>sysfs_path\<close> among them; yet the set routine
  returns 1, soft-connect is not enabled again and the failure is signalled. For the RNDIS
  mode on a system without the \<^verbatim>\<open>functions\<close> attribute, the primary write fails and
  the routine returns 0: the result is that of the extra write and of the soft-connect write.
\<close>

theorem set_android_result_not_from_primary_write_witness:
  "fst (modesetting_set_dynamic_mode android_env (Some mtp_mode) (startup (\<lambda>p. attr_node ''none''))) = 1 \<and>
   trace (snd (modesetting_set_dynamic_mode android_env (Some mtp_mode)
                 (startup (\<lambda>p. attr_node ''none'')))) =
     [Log LOG_DEBUG ''WRITE /sys/class/android_usb/android0/enable : none --> 0'',
      WriteCall ''/sys/class/android_usb/android0/enable'' ''0'',
      Ext (Android_set_productid None), Ext (Android_set_vendorid None),
      Log LOG_DEBUG ''WRITE /sys/class/android_usb/android0/functions : none --> mtp'',
      WriteCall ''/sys/class/android_usb/android0/functions'' ''mtp'',
      ErrorSignal MODE_SETTING_FAILED] \<and>
   fst (write_to_file android_env (sysfs_path rndis_mode) (sysfs_value rndis_mode)
          (startup functions_missing)) = - 1 \<and>
   fst (modesetting_set_dynamic_mode android_env (Some rndis_mode) (startup functions_missing)) = 0"
proof -
  have m: "mass_storage mtp_mode = 0" "appsync mtp_mode = 0" "android_extra_sysfs_value mtp_mode = None"
    by (simp_all add: mtp_mode_def calloc_mode_def)
  have e: "\<not> configfs_in_use android_env" "android_in_use android_env"
    by (simp_all add: android_env_def)
  have a: "fst (modesetting_set_dynamic_mode android_env (Some mtp_mode)
                  (startup (\<lambda>p. attr_node ''none''))) = 1"
    using set_android_result_not_from_primary_write [OF m(1) m(2) e, of "startup (\<lambda>p. attr_node ''none'')"] m(3)
    by simp
  have b: "trace (snd (modesetting_set_dynamic_mode android_env (Some mtp_mode)
                 (startup (\<lambda>p. attr_node ''none'')))) =
     [Log LOG_DEBUG ''WRITE /sys/class/android_usb/android0/enable : none --> 0'',
      WriteCall ''/sys/class/android_usb/android0/enable'' ''0'',
      Ext (Android_set_productid None), Ext (Android_set_vendorid None),
      Log LOG_DEBUG ''WRITE /sys/class/android_usb/android0/functions : none --> mtp'',
      WriteCall ''/sys/class/android_usb/android0/functions'' ''mtp'',
      ErrorSignal MODE_SETTING_FAILED]"
    by code_simp
  have c: "fst (write_to_file android_env (sysfs_path rndis_mode) (sysfs_value rndis_mode)
          (startup functions_missing)) = - 1"
    by code_simp
  have d: "fst (modesetting_set_dynamic_mode android_env (Some rndis_mode) (startup functions_missing)) = 0"
    by code_simp
  from a b c d show ?thesis by (simp only: simp_thms)
qed

subsection \<open>Unmount retries\<close>

lemma count_emit [simp]:
  "count_list (trace (emit ev w)) x = count_list (trace w) x + (if ev = x then 1 else 0)"
  by (simp add: emit_def)

lemma count_log [simp]: "count_list (trace (log_msg lvl msg w)) (System c) = count_list (trace w) (System c)"
  by (simp add: log_msg_def)

lemma count_system [simp]:
  "count_list (trace (snd (usbmoded_system E cmd w))) (System c) =
     count_list (trace w) (System c) + (if cmd = c then 1 else 0)"
  by (simp add: usbmoded_system_def)

lemma count_report_line [simp]:
  "count_list (trace (report_line tx w)) (System c) = count_list (trace w) (System c)"
  by (simp add: report_line_def Let_def)

lemma count_fold_report [simp]:
  "count_list (trace (fold report_line ls w)) (System c) = count_list (trace w) (System c)"
  by (induction ls arbitrary: w) auto

lemma count_report [simp]:
  "count_list (trace (modesetting_report_mass_storage_blocker E m t w)) (System c) =
     count_list (trace w) (System c)"
  by (simp add: modesetting_report_mass_storage_blocker_def Let_def split: option.splits)

lemma unat_retries_left:
  fixes t :: "32 word"
  assumes "t \<noteq> 3"
  shows "unat (3 - t) = Suc (unat (3 - (t + 1)))"
proof -
  from assms have nz: "3 - t \<noteq> 0" by simp
  have e: "3 - (t + 1) = (3 - t) - 1" by simp
  have "unat ((3 - t) - 1) = unat (3 - t) - 1" using nz by (rule unat_minus_one)
  moreover have "unat (3 - t) \<noteq> 0" using nz by (simp add: unat_eq_zero)
  ultimately show ?thesis by (simp only: e)
qed

text \<open>
  A mount point that stays mounted and whose unmount always fails with \<open>r\<close>: entered with
  the counter at \<open>t\<close>, the loop gives up with \<open>r\<close> after \<open>unat (3 - t) + 1\<close> unmount
  commands, and the unmount-error signal is the last thing it sends. That is 4 attempts
  when the counter is 0, and one less for every retry used before.
\<close>

lemma umount_always_failing:
  assumes g: "\<forall>tr. system_rc E tr (''mount | grep '' @ mp) = 0"
    and u: "\<forall>tr. system_rc E tr (''umount '' @ mp) = r" and r: "r \<noteq> 0"
  shows "fst (umount_mountpoint E mount mp t w) = Inl r \<and>
         count_list (trace (snd (umount_mountpoint E mount mp t w))) (System (''umount '' @ mp)) =
           count_list (trace w) (System (''umount '' @ mp)) + unat (3 - t) + 1 \<and>
         last (trace (snd (umount_mountpoint E mount mp t w))) = ErrorSignal UMOUNT_ERROR"
  using assms
proof (induction E mount mp t w rule: umount_mountpoint.induct)
  case (1 E mount mp t w)
  define ret where "ret = fst (usbmoded_system E (''mount | grep '' @ mp) w)"
  define w2 where "w2 = snd (usbmoded_system E (''mount | grep '' @ mp) w)"
  define ret2 where "ret2 = fst (usbmoded_system E (''umount '' @ mp)
                  (log_msg LOG_DEBUG (''unmount command = umount '' @ mp) w2))"
  define w3 where "w3 = snd (usbmoded_system E (''umount '' @ mp)
                  (log_msg LOG_DEBUG (''unmount command = umount '' @ mp) w2))"
  define w4 where "w4 = modesetting_report_mass_storage_blocker E mount 1
                        (log_msg LOG_ERR ''Umount failed. Retrying'' (emit (Sleep 1) w3))"
  have unfold: "umount_mountpoint E mount mp t w =
      (if ret = 0 then
         if ret2 \<noteq> 0 then
           if t \<noteq> 3 then umount_mountpoint E mount mp (t + 1) w4
           else (Inl ret2,
                 emit (ErrorSignal UMOUNT_ERROR)
                   (modesetting_report_mass_storage_blocker E mount 2
                      (log_msg LOG_ERR (''Unmounting '' @ mount @ '' failed'') w3)))
         else (Inr t, w3)
       else (Inr t, w2))"
    unfolding ret_def w2_def ret2_def w3_def w4_def
    by (subst umount_mountpoint.simps) (simp only: split_beta)
  have ret: "ret = 0" using "1.prems"(1) by (simp add: ret_def usbmoded_system_def)
  have ret2: "ret2 = r" using "1.prems"(2) by (simp add: ret2_def usbmoded_system_def)
  have c3: "count_list (trace w3) (System (''umount '' @ mp)) =
              count_list (trace w) (System (''umount '' @ mp)) + 1"
    by (simp add: w3_def w2_def)
  show ?case
  proof (cases "t = 3")
    case True
    have eq: "umount_mountpoint E mount mp t w =
                (Inl r, emit (ErrorSignal UMOUNT_ERROR)
                   (modesetting_report_mass_storage_blocker E mount 2
                      (log_msg LOG_ERR (''Unmounting '' @ mount @ '' failed'') w3)))"
      unfolding unfold using True ret ret2 "1.prems"(3) by simp
    show ?thesis unfolding eq using c3 True by (simp add: emit_def)
  next
    case False
    have p1: "(ret, w2) = usbmoded_system E (''mount | grep '' @ mp) w"
      by (simp add: ret_def w2_def)
    have p2: "(ret2, w3) = usbmoded_system E (''umount '' @ mp)
              (log_msg LOG_DEBUG (''unmount command = umount '' @ mp) w2)"
      by (simp add: ret2_def w3_def)
    have ih: "fst (umount_mountpoint E mount mp (t + 1) w4) = Inl r \<and>
         count_list (trace (snd (umount_mountpoint E mount mp (t + 1) w4))) (System (''umount '' @ mp)) =
           count_list (trace w4) (System (''umount '' @ mp)) + unat (3 - (t + 1)) + 1 \<and>
         last (trace (snd (umount_mountpoint E mount mp (t + 1) w4))) = ErrorSignal UMOUNT_ERROR"
      unfolding w4_def
      using p1 _ p2 _ _ "1.prems"
    proof (rule "1.IH")
      show "ret = 0" by (rule ret)
      show "ret2 \<noteq> 0" using ret2 "1.prems"(3) by simp
      show "t \<noteq> 3" by (rule False)
    qed
    have c4: "count_list (trace w4) (System (''umount '' @ mp)) =
                count_list (trace w) (System (''umount '' @ mp)) + 1"
      using c3 by (simp add: w4_def)
    have eq: "umount_mountpoint E mount mp t w = umount_mountpoint E mount mp (t + 1) w4"
      unfolding unfold using False ret ret2 "1.prems"(3) by simp
    show ?thesis unfolding eq using ih c4 unat_retries_left [OF False] by simp
  qed
qed

text \<open>No other command is run while one mount point is being unmounted.\<close>

lemma umount_other_commands:
  assumes "c \<noteq> ''umount '' @ mp" and "c \<noteq> ''mount | grep '' @ mp"
  shows "count_list (trace (snd (umount_mountpoint E mount mp t w))) (System c) =
         count_list (trace w) (System c)"
  using assms
proof (induction E mount mp t w rule: umount_mountpoint.induct)
  case (1 E mount mp t w)
  define ret where "ret = fst (usbmoded_system E (''mount | grep '' @ mp) w)"
  define w2 where "w2 = snd (usbmoded_system E (''mount | grep '' @ mp) w)"
  define ret2 where "ret2 = fst (usbmoded_system E (''umount '' @ mp)
                  (log_msg LOG_DEBUG (''unmount command = umount '' @ mp) w2))"
  define w3 where "w3 = snd (usbmoded_system E (''umount '' @ mp)
                  (log_msg LOG_DEBUG (''unmount command = umount '' @ mp) w2))"
  define w4 where "w4 = modesetting_report_mass_storage_blocker E mount 1
                        (log_msg LOG_ERR ''Umount failed. Retrying'' (emit (Sleep 1) w3))"
  have unfold: "umount_mountpoint E mount mp t w =
      (if ret = 0 then
         if ret2 \<noteq> 0 then
           if t \<noteq> 3 then umount_mountpoint E mount mp (t + 1) w4
           else (Inl ret2,
                 emit (ErrorSignal UMOUNT_ERROR)
                   (modesetting_report_mass_storage_blocker E mount 2
                      (log_msg LOG_ERR (''Unmounting '' @ mount @ '' failed'') w3)))
         else (Inr t, w3)
       else (Inr t, w2))"
    unfolding ret_def w2_def ret2_def w3_def w4_def
    by (subst umount_mountpoint.simps) (simp only: split_beta)
  have c2: "count_list (trace w2) (System c) = count_list (trace w) (System c)"
    using "1.prems" by (simp add: w2_def)
  have c3: "count_list (trace w3) (System c) = count_list (trace w) (System c)"
    using "1.prems" c2 by (simp add: w3_def)
  have c4: "count_list (trace w4) (System c) = count_list (trace w) (System c)"
    using c3 by (simp add: w4_def)
  show ?case
  proof (cases "ret = 0 \<and> ret2 \<noteq> 0 \<and> t \<noteq> 3")
    case True
    have p1: "(ret, w2) = usbmoded_system E (''mount | grep '' @ mp) w"
      by (simp add: ret_def w2_def)
    have p2: "(ret2, w3) = usbmoded_system E (''umount '' @ mp)
              (log_msg LOG_DEBUG (''unmount command = umount '' @ mp) w2)"
      by (simp add: ret2_def w3_def)
    have ih: "count_list (trace (snd (umount_mountpoint E mount mp (t + 1) w4))) (System c) =
              count_list (trace w4) (System c)"
      unfolding w4_def
      using p1 _ p2 _ _ "1.prems"
    proof (rule "1.IH")
      show "ret = 0" using True by simp
      show "ret2 \<noteq> 0" using True by simp
      show "t \<noteq> 3" using True by simp
    qed
    have eq: "umount_mountpoint E mount mp t w = umount_mountpoint E mount mp (t + 1) w4"
      unfolding unfold using True by simp
    show ?thesis unfolding eq using ih c4 by simp
  next
    case False
    then show ?thesis unfolding unfold using c2 c3 by (auto simp: emit_def)
  qed
qed

text \<open>
  In the example, unmounting \<^verbatim>\<open>/a\<close> fails once and then works: two unmount commands, and
  the counter is 1 when the loop goes on to the next mount point.
\<close>

lemma busy_first_mount_point:
  assumes "System ''umount /a'' \<notin> set (trace w)"
  shows "fst (umount_mountpoint busy_env mount ''/a'' 0 w) = Inr 1 \<and>
         count_list (trace (snd (umount_mountpoint busy_env mount ''/a'' 0 w))) (System ''umount /a'') = 2"
  using assms
  apply (subst umount_mountpoint.simps)
  apply (subst (2) umount_mountpoint.simps)
  apply (subst umount_mountpoint.simps)
  apply (subst (2) umount_mountpoint.simps)
  apply (simp add: usbmoded_system_def busy_env_def busy_rc_def android_env_def emit_def log_msg_def
      modesetting_report_mass_storage_blocker_def Let_def count_list_0_iff)
  done

lemma set_mass_storage_mode_without_module:
  assumes "mode_module data = Some (MODULE_NONE (macros E))"
    and "config_find_mounts E = Some mount"
  shows "modesetting_set_mass_storage_mode E data w =
     (case umount_all E mount (g_strsplit mount CHR '','') 0 0 (emit (StateSignal USB_PRE_UNMOUNT) w) of
        ((True, r2), w2) \<Rightarrow> (r2, w2)
      | ((False, r2), w2) \<Rightarrow>
          (r2, if r2 = 0
               then emit (StateSignal DATA_IN_USE)
                      (activate_luns E data (config_find_sync E) mount (g_strsplit mount CHR '','') 0
                         (emit (Sleep 1) w2))
               else activate_luns E data (config_find_sync E) mount (g_strsplit mount CHR '','') 0
                      (emit (Sleep 1) w2)))"
  using assms by (simp add: modesetting_set_mass_storage_mode_def reload_module_def Let_def)

lemma busy_oracle:
  "system_rc busy_env tr (''mount | grep '' @ ''/b'') = 0"
  "system_rc busy_env tr (''umount '' @ ''/b'') = 1"
  "system_rc busy_b_env tr (''mount | grep '' @ ''/b'') = 0"
  "system_rc busy_b_env tr (''umount '' @ ''/b'') = 1"
  "realpath busy_env p = None" "realpath busy_b_env p = None"
  "config_find_mounts busy_env = Some ''/a,/b''" "config_find_mounts busy_b_env = Some ''/b''"
  "mode_module storage_mode = Some (MODULE_NONE (macros busy_env))"
  "mode_module storage_mode = Some (MODULE_NONE (macros busy_b_env))"
  by (simp_all add: busy_env_def busy_b_env_def busy_rc_def android_env_def storage_mode_def
      calloc_mode_def example_macros_def)

lemma startup_trace: "trace (emit (StateSignal USB_PRE_UNMOUNT) (startup fs)) = [StateSignal USB_PRE_UNMOUNT]"
  by (simp add: startup_def modesetting_init_def emit_def)

lemma busy_both_run:
  defines "w1 \<equiv> emit (StateSignal USB_PRE_UNMOUNT) (startup (\<lambda>p. attr_node ''0''))"
  defines "wa \<equiv> snd (umount_mountpoint busy_env ''/a,/b'' ''/a'' 0 w1)"
  defines "wb \<equiv> snd (umount_mountpoint busy_env ''/a,/b'' ''/b'' 1 wa)"
  shows "modesetting_set_mass_storage_mode busy_env storage_mode (startup (\<lambda>p. attr_node ''0'')) = (1, wb)"
    and "count_list (trace wb) (System ''umount /a'') = 2"
    and "count_list (trace wb) (System ''umount /b'') = 3"
    and "last (trace wb) = ErrorSignal UMOUNT_ERROR"
proof -
  have tr1: "trace w1 = [StateSignal USB_PRE_UNMOUNT]"
    unfolding w1_def by (rule startup_trace)
  have a: "fst (umount_mountpoint busy_env ''/a,/b'' ''/a'' 0 w1) = Inr 1"
    and ca: "count_list (trace wa) (System ''umount /a'') = 2"
    unfolding wa_def using busy_first_mount_point [of w1 "''/a,/b''"] tr1 by simp_all
  have cb0: "count_list (trace wa) (System ''umount /b'') = 0"
    unfolding wa_def using umount_other_commands [of "''umount /b''" "''/a''" busy_env "''/a,/b''" 0 w1] tr1
    by simp
  have b: "fst (umount_mountpoint busy_env ''/a,/b'' ''/b'' 1 wa) = Inl 1 \<and>
           count_list (trace wb) (System (''umount '' @ ''/b'')) =
             count_list (trace wa) (System (''umount '' @ ''/b'')) + unat (3 - (1 :: 32 word)) + 1 \<and>
           last (trace wb) = ErrorSignal UMOUNT_ERROR"
    unfolding wb_def by (rule umount_always_failing) (simp_all only: busy_oracle, simp_all)
  have u: "unat (3 - (1 :: 32 word)) = 2" by simp
  show "count_list (trace wb) (System ''umount /b'') = 3" using b cb0 u by simp
  show "last (trace wb) = ErrorSignal UMOUNT_ERROR" using b by simp
  show "count_list (trace wb) (System ''umount /a'') = 2"
    unfolding wb_def using umount_other_commands [of "''umount /a''" "''/b''" busy_env "''/a,/b''" 1 wa] ca
    by simp
  have pa: "umount_mountpoint busy_env ''/a,/b'' ''/a'' 0 w1 = (Inr 1, wa)"
    using a by (simp add: wa_def prod_eq_iff)
  have pb: "umount_mountpoint busy_env ''/a,/b'' ''/b'' 1 wa = (Inl 1, wb)"
    using b by (simp add: wb_def prod_eq_iff)
  have sp: "g_strsplit ''/a,/b'' CHR '','' = [''/a'', ''/b'']" by (simp add: g_strsplit_def)
  have "umount_all busy_env ''/a,/b'' [''/a'', ''/b''] 0 0 w1 = ((True, 1), wb)"
    using pa pb by (simp add: busy_oracle)
  then show "modesetting_set_mass_storage_mode busy_env storage_mode (startup (\<lambda>p. attr_node ''0'')) = (1, wb)"
    unfolding w1_def
    by (simp only: set_mass_storage_mode_without_module [OF busy_oracle(9) busy_oracle(7)] sp
        prod.case bool.case)
qed

lemma busy_single_run:
  defines "w1 \<equiv> emit (StateSignal USB_PRE_UNMOUNT) (startup (\<lambda>p. attr_node ''0''))"
  defines "wb \<equiv> snd (umount_mountpoint busy_b_env ''/b'' ''/b'' 0 w1)"
  shows "modesetting_set_mass_storage_mode busy_b_env storage_mode (startup (\<lambda>p. attr_node ''0'')) = (1, wb)"
    and "count_list (trace wb) (System ''umount /b'') = 4"
    and "last (trace wb) = ErrorSignal UMOUNT_ERROR"
proof -
  have tr1: "trace w1 = [StateSignal USB_PRE_UNMOUNT]"
    unfolding w1_def by (rule startup_trace)
  have b: "fst (umount_mountpoint busy_b_env ''/b'' ''/b'' 0 w1) = Inl 1 \<and>
           count_list (trace wb) (System (''umount '' @ ''/b'')) =
             count_list (trace w1) (System (''umount '' @ ''/b'')) + unat (3 - (0 :: 32 word)) + 1 \<and>
           last (trace wb) = ErrorSignal UMOUNT_ERROR"
    unfolding wb_def by (rule umount_always_failing) (simp_all only: busy_oracle, simp_all)
  show "count_list (trace wb) (System ''umount /b'') = 4" using b tr1 by simp
  show "last (trace wb) = ErrorSignal UMOUNT_ERROR" using b by simp
  have pb: "umount_mountpoint busy_b_env ''/b'' ''/b'' 0 w1 = (Inl 1, wb)"
    using b by (simp add: wb_def prod_eq_iff)
  have sp: "g_strsplit ''/b'' CHR '','' = [''/b'']" by (simp add: g_strsplit_def)
  have "umount_all busy_b_env ''/b'' [''/b''] 0 0 w1 = ((True, 1), wb)"
    using pb by (simp add: busy_oracle)
  then show "modesetting_set_mass_storage_mode busy_b_env storage_mode (startup (\<lambda>p. attr_node ''0'')) = (1, wb)"
    unfolding w1_def
    by (simp only: set_mass_storage_mode_without_module [OF busy_oracle(10) busy_oracle(8)] sp
        prod.case bool.case)
qed

text \<open>
  Claim C4 (every mounted mount point whose unmount keeps failing gets exactly 4 unmount
  attempts before the operation gives up). The retry counter is declared once for the
  whole function and is not reset when the loop moves to the next mount point. Sharing
  only \<^verbatim>\<open>/b\<close>, whose unmount always fails, the operation runs \<^verbatim>\<open>umount /b\<close> 4 times.
  Sharing \<^verbatim>\<open>/a\<close> and \<^verbatim>\<open>/b\<close>, where unmounting \<^verbatim>\<open>/a\<close> fails once and then works, it
  runs \<^verbatim>\<open>umount /a\<close> twice and \<^verbatim>\<open>umount /b\<close> only 3 times before it sends the
  unmount-error signal and returns the failure.
\<close>

theorem umount_retries_shared_between_mount_points:
  "count_list (trace (snd (modesetting_set_mass_storage_mode busy_b_env storage_mode
                             (startup (\<lambda>p. attr_node ''0''))))) (System ''umount /b'') = 4 \<and>
   fst (modesetting_set_mass_storage_mode busy_env storage_mode (startup (\<lambda>p. attr_node ''0''))) = 1 \<and>
   count_list (trace (snd (modesetting_set_mass_storage_mode busy_env storage_mode
                             (startup (\<lambda>p. attr_node ''0''))))) (System ''umount /a'') = 2 \<and>
   count_list (trace (snd (modesetting_set_mass_storage_mode busy_env storage_mode
                             (startup (\<lambda>p. attr_node ''0''))))) (System ''umount /b'') = 3 \<and>
   last (trace (snd (modesetting_set_mass_storage_mode busy_env storage_mode
                             (startup (\<lambda>p. attr_node ''0''))))) = ErrorSignal UMOUNT_ERROR"
  by (simp only: busy_both_run busy_single_run fst_conv snd_conv simp_thms)

subsection \<open>The data-in-use signal\<close>








end
